theory Spec2Isabelle
  imports Main "HOL-Library.Word"
begin

unbundle bit_operations_syntax

section \<open>Bytes and Python values\<close>

text \<open>
  A Python \<^verbatim>\<open>bytes\<close> or \<^verbatim>\<open>bytearray\<close> value is a list of 8-bit words; indexing it
  gives a Python integer (\<open>uint\<close> of the word). Python integers are unbounded: \<open>int\<close>.
\<close>

type_synonym byte = "8 word"

text \<open>
  Every exception the modelled code can raise is a value. The first six are the six
  \<^verbatim>\<open>ValueError\<close>s of \<^verbatim>\<open>parse_dji_frame\<close>, in the order of their \<^verbatim>\<open>raise\<close> statements:
  "Frame data is too short", "Invalid frame header (SOF)", "Frame length mismatch",
  "CRC16 check failed", "CRC32 check failed", "DATA section too short".
\<close>

datatype error =
    TooShort
  | BadSof
  | LengthMismatch
  | Crc16Mismatch
  | Crc32Mismatch
  | PayloadTooShort
  | BytesRangeError   \<comment> \<open>\<^verbatim>\<open>bytes([x])\<close> with x outside range(256): ValueError\<close>
  | OverflowError     \<comment> \<open>\<^verbatim>\<open>int.to_bytes\<close> of a value that does not fit\<close>
  | StructError       \<comment> \<open>\<^verbatim>\<open>struct.pack\<close> / \<^verbatim>\<open>struct.unpack\<close> on a bad argument\<close>
  | IndexError        \<comment> \<open>index out of range\<close>
  | EnumValueError    \<comment> \<open>\<^verbatim>\<open>Enum(value)\<close> with no member and no \<^verbatim>\<open>_missing_\<close> result\<close>
  | NotConnected      \<comment> \<open>\<^verbatim>\<open>Exception("Bluetooth not connected")\<close>\<close>
  | DeviceNotFound    \<comment> \<open>\<^verbatim>\<open>Exception("DJI Osmo Action device not found")\<close>\<close>
  | RemoveMissing     \<comment> \<open>\<^verbatim>\<open>list.remove(x)\<close>: x not in list (ValueError)\<close>
  | AttributeError    \<comment> \<open>reading \<^verbatim>\<open>self.device_id\<close> before \<^verbatim>\<open>connect\<close> has stored it\<close>

text \<open>Sequencing of fallible steps: the first exception ends the computation.\<close>

definition thn :: "error + 'a \<Rightarrow> ('a \<Rightarrow> error + 'b) \<Rightarrow> error + 'b" where
  "thn m f = (case m of Inl e \<Rightarrow> Inl e | Inr x \<Rightarrow> f x)"

text \<open>\<^verbatim>\<open>bytes([x, y, ...])\<close>: every element must be in range(256).\<close>

definition py_bytes :: "int list \<Rightarrow> error + byte list" where
  "py_bytes xs =
     (if list_all (\<lambda>x. 0 \<le> x \<and> x < 256) xs then Inr (map word_of_int xs)
      else Inl BytesRangeError)"

text \<open>\<^verbatim>\<open>v.to_bytes(n, 'little')\<close>: the n low bytes, least significant first;
  OverflowError when v is negative or needs more than n bytes.\<close>

fun le_bytes :: "nat \<Rightarrow> int \<Rightarrow> byte list" where
  "le_bytes 0 v = []"
| "le_bytes (Suc n) v = word_of_int v # le_bytes n (drop_bit 8 v)"

definition to_bytes_le :: "nat \<Rightarrow> int \<Rightarrow> error + byte list" where
  "to_bytes_le n v =
     (if 0 \<le> v \<and> v < 2 ^ (8 * n) then Inr (le_bytes n v) else Inl OverflowError)"

text \<open>\<^verbatim>\<open>int.from_bytes(bs, 'little')\<close>.\<close>

fun from_bytes_le :: "byte list \<Rightarrow> int" where
  "from_bytes_le [] = 0"
| "from_bytes_le (b # bs) = uint b + 256 * from_bytes_le bs"

text \<open>\<^verbatim>\<open>xs[a:b]\<close> for indices \<open>0 \<le> a\<close>, \<open>0 \<le> b\<close>: clipped to the sequence, never raises.\<close>

definition py_slice :: "'a list \<Rightarrow> nat \<Rightarrow> nat \<Rightarrow> 'a list" where
  "py_slice xs a b = take (b - a) (drop a xs)"

section \<open>Checksum engine\<close>

definition DJI_CRC16_TABLE :: "int list" where
  "DJI_CRC16_TABLE =
    [
     0x0000, 0xc0c1, 0xc181, 0x0140, 0xc301, 0x03c0, 0x0280, 0xc241,
     0xc601, 0x06c0, 0x0780, 0xc741, 0x0500, 0xc5c1, 0xc481, 0x0440,
     0xcc01, 0x0cc0, 0x0d80, 0xcd41, 0x0f00, 0xcfc1, 0xce81, 0x0e40,
     0x0a00, 0xcac1, 0xcb81, 0x0b40, 0xc901, 0x09c0, 0x0880, 0xc841,
     0xd801, 0x18c0, 0x1980, 0xd941, 0x1b00, 0xdbc1, 0xda81, 0x1a40,
     0x1e00, 0xdec1, 0xdf81, 0x1f40, 0xdd01, 0x1dc0, 0x1c80, 0xdc41,
     0x1400, 0xd4c1, 0xd581, 0x1540, 0xd701, 0x17c0, 0x1680, 0xd641,
     0xd201, 0x12c0, 0x1380, 0xd341, 0x1100, 0xd1c1, 0xd081, 0x1040,
     0xf001, 0x30c0, 0x3180, 0xf141, 0x3300, 0xf3c1, 0xf281, 0x3240,
     0x3600, 0xf6c1, 0xf781, 0x3740, 0xf501, 0x35c0, 0x3480, 0xf441,
     0x3c00, 0xfcc1, 0xfd81, 0x3d40, 0xff01, 0x3fc0, 0x3e80, 0xfe41,
     0xfa01, 0x3ac0, 0x3b80, 0xfb41, 0x3900, 0xf9c1, 0xf881, 0x3840,
     0x2800, 0xe8c1, 0xe981, 0x2940, 0xeb01, 0x2bc0, 0x2a80, 0xea41,
     0xee01, 0x2ec0, 0x2f80, 0xef41, 0x2d00, 0xedc1, 0xec81, 0x2c40,
     0xe401, 0x24c0, 0x2580, 0xe541, 0x2700, 0xe7c1, 0xe681, 0x2640,
     0x2200, 0xe2c1, 0xe381, 0x2340, 0xe101, 0x21c0, 0x2080, 0xe041,
     0xa001, 0x60c0, 0x6180, 0xa141, 0x6300, 0xa3c1, 0xa281, 0x6240,
     0x6600, 0xa6c1, 0xa781, 0x6740, 0xa501, 0x65c0, 0x6480, 0xa441,
     0x6c00, 0xacc1, 0xad81, 0x6d40, 0xaf01, 0x6fc0, 0x6e80, 0xae41,
     0xaa01, 0x6ac0, 0x6b80, 0xab41, 0x6900, 0xa9c1, 0xa881, 0x6840,
     0x7800, 0xb8c1, 0xb981, 0x7940, 0xbb01, 0x7bc0, 0x7a80, 0xba41,
     0xbe01, 0x7ec0, 0x7f80, 0xbf41, 0x7d00, 0xbdc1, 0xbc81, 0x7c40,
     0xb401, 0x74c0, 0x7580, 0xb541, 0x7700, 0xb7c1, 0xb681, 0x7640,
     0x7200, 0xb2c1, 0xb381, 0x7340, 0xb101, 0x71c0, 0x7080, 0xb041,
     0x5000, 0x90c1, 0x9181, 0x5140, 0x9301, 0x53c0, 0x5280, 0x9241,
     0x9601, 0x56c0, 0x5780, 0x9741, 0x5500, 0x95c1, 0x9481, 0x5440,
     0x9c01, 0x5cc0, 0x5d80, 0x9d41, 0x5f00, 0x9fc1, 0x9e81, 0x5e40,
     0x5a00, 0x9ac1, 0x9b81, 0x5b40, 0x9901, 0x59c0, 0x5880, 0x9841,
     0x8801, 0x48c0, 0x4980, 0x8941, 0x4b00, 0x8bc1, 0x8a81, 0x4a40,
     0x4e00, 0x8ec1, 0x8f81, 0x4f40, 0x8d01, 0x4dc0, 0x4c80, 0x8c41,
     0x4400, 0x84c1, 0x8581, 0x4540, 0x8701, 0x47c0, 0x4680, 0x8641,
     0x8201, 0x42c0, 0x4380, 0x8341, 0x4100, 0x81c1, 0x8081, 0x4040
    ]"

definition DJI_CRC32_TABLE :: "int list" where
  "DJI_CRC32_TABLE =
    [
     0x00000000, 0x77073096, 0xee0e612c, 0x990951ba, 0x076dc419, 0x706af48f, 0xe963a535, 0x9e6495a3,
     0x0edb8832, 0x79dcb8a4, 0xe0d5e91e, 0x97d2d988, 0x09b64c2b, 0x7eb17cbd, 0xe7b82d07, 0x90bf1d91,
     0x1db71064, 0x6ab020f2, 0xf3b97148, 0x84be41de, 0x1adad47d, 0x6ddde4eb, 0xf4d4b551, 0x83d385c7,
     0x136c9856, 0x646ba8c0, 0xfd62f97a, 0x8a65c9ec, 0x14015c4f, 0x63066cd9, 0xfa0f3d63, 0x8d080df5,
     0x3b6e20c8, 0x4c69105e, 0xd56041e4, 0xa2677172, 0x3c03e4d1, 0x4b04d447, 0xd20d85fd, 0xa50ab56b,
     0x35b5a8fa, 0x42b2986c, 0xdbbbc9d6, 0xacbcf940, 0x32d86ce3, 0x45df5c75, 0xdcd60dcf, 0xabd13d59,
     0x26d930ac, 0x51de003a, 0xc8d75180, 0xbfd06116, 0x21b4f4b5, 0x56b3c423, 0xcfba9599, 0xb8bda50f,
     0x2802b89e, 0x5f058808, 0xc60cd9b2, 0xb10be924, 0x2f6f7c87, 0x58684c11, 0xc1611dab, 0xb6662d3d,
     0x76dc4190, 0x01db7106, 0x98d220bc, 0xefd5102a, 0x71b18589, 0x06b6b51f, 0x9fbfe4a5, 0xe8b8d433,
     0x7807c9a2, 0x0f00f934, 0x9609a88e, 0xe10e9818, 0x7f6a0dbb, 0x086d3d2d, 0x91646c97, 0xe6635c01,
     0x6b6b51f4, 0x1c6c6162, 0x856530d8, 0xf262004e, 0x6c0695ed, 0x1b01a57b, 0x8208f4c1, 0xf50fc457,
     0x65b0d9c6, 0x12b7e950, 0x8bbeb8ea, 0xfcb9887c, 0x62dd1ddf, 0x15da2d49, 0x8cd37cf3, 0xfbd44c65,
     0x4db26158, 0x3ab551ce, 0xa3bc0074, 0xd4bb30e2, 0x4adfa541, 0x3dd895d7, 0xa4d1c46d, 0xd3d6f4fb,
     0x4369e96a, 0x346ed9fc, 0xad678846, 0xda60b8d0, 0x44042d73, 0x33031de5, 0xaa0a4c5f, 0xdd0d7cc9,
     0x5005713c, 0x270241aa, 0xbe0b1010, 0xc90c2086, 0x5768b525, 0x206f85b3, 0xb966d409, 0xce61e49f,
     0x5edef90e, 0x29d9c998, 0xb0d09822, 0xc7d7a8b4, 0x59b33d17, 0x2eb40d81, 0xb7bd5c3b, 0xc0ba6cad,
     0xedb88320, 0x9abfb3b6, 0x03b6e20c, 0x74b1d29a, 0xead54739, 0x9dd277af, 0x04db2615, 0x73dc1683,
     0xe3630b12, 0x94643b84, 0x0d6d6a3e, 0x7a6a5aa8, 0xe40ecf0b, 0x9309ff9d, 0x0a00ae27, 0x7d079eb1,
     0xf00f9344, 0x8708a3d2, 0x1e01f268, 0x6906c2fe, 0xf762575d, 0x806567cb, 0x196c3671, 0x6e6b06e7,
     0xfed41b76, 0x89d32be0, 0x10da7a5a, 0x67dd4acc, 0xf9b9df6f, 0x8ebeeff9, 0x17b7be43, 0x60b08ed5,
     0xd6d6a3e8, 0xa1d1937e, 0x38d8c2c4, 0x4fdff252, 0xd1bb67f1, 0xa6bc5767, 0x3fb506dd, 0x48b2364b,
     0xd80d2bda, 0xaf0a1b4c, 0x36034af6, 0x41047a60, 0xdf60efc3, 0xa867df55, 0x316e8eef, 0x4669be79,
     0xcb61b38c, 0xbc66831a, 0x256fd2a0, 0x5268e236, 0xcc0c7795, 0xbb0b4703, 0x220216b9, 0x5505262f,
     0xc5ba3bbe, 0xb2bd0b28, 0x2bb45a92, 0x5cb36a04, 0xc2d7ffa7, 0xb5d0cf31, 0x2cd99e8b, 0x5bdeae1d,
     0x9b64c2b0, 0xec63f226, 0x756aa39c, 0x026d930a, 0x9c0906a9, 0xeb0e363f, 0x72076785, 0x05005713,
     0x95bf4a82, 0xe2b87a14, 0x7bb12bae, 0x0cb61b38, 0x92d28e9b, 0xe5d5be0d, 0x7cdcefb7, 0x0bdbdf21,
     0x86d3d2d4, 0xf1d4e242, 0x68ddb3f8, 0x1fda836e, 0x81be16cd, 0xf6b9265b, 0x6fb077e1, 0x18b74777,
     0x88085ae6, 0xff0f6a70, 0x66063bca, 0x11010b5c, 0x8f659eff, 0xf862ae69, 0x616bffd3, 0x166ccf45,
     0xa00ae278, 0xd70dd2ee, 0x4e048354, 0x3903b3c2, 0xa7672661, 0xd06016f7, 0x4969474d, 0x3e6e77db,
     0xaed16a4a, 0xd9d65adc, 0x40df0b66, 0x37d83bf0, 0xa9bcae53, 0xdebb9ec5, 0x47b2cf7f, 0x30b5ffe9,
     0xbdbdf21c, 0xcabac28a, 0x53b39330, 0x24b4a3a6, 0xbad03605, 0xcdd70693, 0x54de5729, 0x23d967bf,
     0xb3667a2e, 0xc4614ab8, 0x5d681b02, 0x2a6f2b94, 0xb40bbe37, 0xc30c8ea1, 0x5a05df1b, 0x2d02ef8d
    ]"

text \<open>
  \<^verbatim>\<open>_ccrc16(data, init=0x3AA3)\<close> and \<^verbatim>\<open>_ccrc32(data, init=0x00003AA3)\<close>: the
  \<^verbatim>\<open>for\<close> loop over the bytes is a recursion carrying \<open>crc\<close>; the index
  \<open>(crc XOR b) AND 0xFF\<close> is always in \<open>0..255\<close> (lemma \<open>tbl_idx_range\<close>), inside the tables.
\<close>

fun ccrc16_loop :: "int \<Rightarrow> byte list \<Rightarrow> int" where
  "ccrc16_loop crc [] = crc"
| "ccrc16_loop crc (b # bs) =
     (let tbl_idx = (crc XOR uint b) AND 0xFF;
          crc' = (DJI_CRC16_TABLE ! nat tbl_idx XOR drop_bit 8 crc) AND 0xFFFF
      in ccrc16_loop crc' bs)"

definition ccrc16 :: "byte list \<Rightarrow> int \<Rightarrow> int" where
  "ccrc16 bs init = ccrc16_loop init bs"

definition ccrc16_init :: int where
  "ccrc16_init = 0x3AA3"

fun ccrc32_loop :: "int \<Rightarrow> byte list \<Rightarrow> int" where
  "ccrc32_loop crc [] = crc"
| "ccrc32_loop crc (b # bs) =
     (let tbl_idx = (crc XOR uint b) AND 0xFF;
          crc' = (DJI_CRC32_TABLE ! nat tbl_idx XOR drop_bit 8 crc) AND 0xFFFFFFFF
      in ccrc32_loop crc' bs)"

definition ccrc32 :: "byte list \<Rightarrow> int \<Rightarrow> int" where
  "ccrc32 bs init = ccrc32_loop init bs"

definition ccrc32_init :: int where
  "ccrc32_init = 0x00003AA3"

text \<open>
  The checksum as the specification words it: one step
  \<open>crc = table[(crc ^ byte) & 0xFF] ^ (crc >> 8)\<close>, kept to \<open>w\<close> bits, folded over the input
  from the seed.
\<close>

definition spec_crc_step :: "int list \<Rightarrow> nat \<Rightarrow> int \<Rightarrow> byte \<Rightarrow> int" where
  "spec_crc_step table w crc b =
     take_bit w (table ! nat ((crc XOR uint b) AND 0xFF) XOR drop_bit 8 crc)"

definition spec_crc :: "int list \<Rightarrow> nat \<Rightarrow> int \<Rightarrow> byte list \<Rightarrow> int" where
  "spec_crc table w seed bs = foldl (spec_crc_step table w) seed bs"

section \<open>Frame codec\<close>

text \<open>
  The dictionary returned by \<^verbatim>\<open>parse_dji_frame\<close>, one field per key (prefixed \<open>f_\<close>; the
  key \<^verbatim>\<open>'length'\<close> would clash with the length of lists).
\<close>

record frame =
  f_version :: int
  f_length :: int
  f_frame_type :: int
  f_ack_type :: int
  f_enc :: int
  f_seq :: int
  f_crc16 :: int
  f_crc32 :: int
  f_cmd_set :: int
  f_cmd_id :: int
  f_data :: "byte list"

text \<open>
  \<^verbatim>\<open>build_dji_frame(cmd_set, cmd_id, payload, is_response, ack_type)\<close>. The arguments
  \<open>cmd_set\<close>, \<open>cmd_id\<close> and \<open>ack_type\<close> are Python integers; \<open>payload\<close> is \<^verbatim>\<open>bytes\<close>.
\<close>

definition build_dji_frame :: "int \<Rightarrow> int \<Rightarrow> byte list \<Rightarrow> bool \<Rightarrow> int \<Rightarrow> error + byte list" where
  "build_dji_frame cmd_set cmd_id payload is_response ack_type =
     thn (py_bytes [cmd_set, cmd_id]) (\<lambda>cmd_bytes.
     let data = cmd_bytes @ payload;
         cmd_type_byte = (0x00 :: int);
         cmd_type_byte = cmd_type_byte OR (ack_type AND 0x1F);
         cmd_type_byte = (if is_response then cmd_type_byte OR 0x20 else cmd_type_byte);
         len = 12 + int (length data) + 4;
         ver_length = push_bit 10 0 OR (len AND 0x03FF)
     in
     thn (to_bytes_le 2 ver_length) (\<lambda>ver_length_bytes.
     thn (py_bytes [0xAA,
                    uint (ver_length_bytes ! 0), uint (ver_length_bytes ! 1),
                    cmd_type_byte,
                    0x00,
                    0x00, 0x00, 0x00,
                    0x01, 0x00]) (\<lambda>frame_header.
     let crc16 = ccrc16 frame_header ccrc16_init in
     thn (to_bytes_le 2 crc16) (\<lambda>crc16_bytes.
     let frame_header = frame_header @ crc16_bytes;
         full_frame = frame_header @ data;
         crc32 = ccrc32 full_frame ccrc32_init
     in
     thn (to_bytes_le 4 crc32) (\<lambda>crc32_bytes.
     Inr (full_frame @ crc32_bytes))))))"

text \<open>
  \<^verbatim>\<open>parse_dji_frame(data)\<close>. After the length check \<open>len\<close> equals the buffer length, which
  is at least 16, so \<open>len - 4\<close> is a non-negative slice bound.
\<close>

definition parse_dji_frame :: "byte list \<Rightarrow> error + frame" where
  "parse_dji_frame data =
     (if length data < 16 then Inl TooShort
      else if uint (data ! 0) \<noteq> 0xAA then Inl BadSof
      else
        let ver_length = from_bytes_le (py_slice data 1 3);
            version = drop_bit 10 ver_length AND 0x3F;
            len = ver_length AND 0x3FF
        in
        if int (length data) \<noteq> len then Inl LengthMismatch
        else
          let cmd_type = uint (data ! 3);
              frame_type = drop_bit 5 cmd_type AND 0x01;
              ack_type = cmd_type AND 0x1F;
              enc = uint (data ! 4);
              seq = from_bytes_le (py_slice data 8 10);
              crc16_calculated = ccrc16 (py_slice data 0 10) ccrc16_init;
              crc16_received = from_bytes_le (py_slice data 10 12)
          in
          if crc16_calculated \<noteq> crc16_received then Inl Crc16Mismatch
          else
            let data_start = 12;
                data_end = nat (len - 4);
                data_payload = py_slice data data_start data_end;
                crc32_calculated = ccrc32 (py_slice data 0 data_end) ccrc32_init;
                crc32_received = from_bytes_le (py_slice data data_end (nat len))
            in
            if crc32_calculated \<noteq> crc32_received then Inl Crc32Mismatch
            else if length data_payload < 2 then Inl PayloadTooShort
            else
              Inr \<lparr> f_version = version,
                    f_length = len,
                    f_frame_type = frame_type,
                    f_ack_type = ack_type,
                    f_enc = enc,
                    f_seq = seq,
                    f_crc16 = crc16_received,
                    f_crc32 = crc32_received,
                    f_cmd_set = uint (data_payload ! 0),
                    f_cmd_id = uint (data_payload ! 1),
                    f_data = drop 2 data_payload \<rparr>)"

section \<open>Telemetry decoder\<close>

text \<open>
  The nine enumerations. Each Python class lists its members with their values and
  overrides \<^verbatim>\<open>_missing_\<close> to return \<^verbatim>\<open>cls.UNKNOWN\<close>. Constructors carry the class name,
  since \<^verbatim>\<open>UNKNOWN\<close>, \<^verbatim>\<open>NORMAL\<close> and \<^verbatim>\<open>OFF\<close> occur in several classes.
\<close>

datatype CameraMode =
    CameraMode_PANO_VIDEO | CameraMode_HYPERLAPSE | CameraMode_SELFIE | CameraMode_PANO_PHOTO
  | CameraMode_BOOST_VIDEO | CameraMode_VORTEX | CameraMode_PANO_SUPER_NIGHT
  | CameraMode_SINGLE_LENS_SUPER_NIGHT | CameraMode_UNKNOWN

datatype ViewStatus =
    ViewStatus_SCREEN_OFF | ViewStatus_LIVE_STREAMING | ViewStatus_PLAYBACK
  | ViewStatus_PHOTO_OR_RECORDING | ViewStatus_PRE_RECORDING | ViewStatus_UNKNOWN

datatype VideoResolution =
    VideoResolution_RES_1080P | VideoResolution_RES_4K | VideoResolution_RES_27K
  | VideoResolution_RES_1080P_9_16 | VideoResolution_RES_27K_4_3 | VideoResolution_RES_4K_4_3
  | VideoResolution_RES_4K_9_16 | VideoResolution_RES_UW_30MP | VideoResolution_RES_W_20MP
  | VideoResolution_RES_STD_12MP | VideoResolution_UNKNOWN

datatype FPSIdx =
    FPSIdx_FPS_24 | FPSIdx_FPS_25 | FPSIdx_FPS_30 | FPSIdx_FPS_48 | FPSIdx_FPS_50 | FPSIdx_FPS_60
  | FPSIdx_FPS_100 | FPSIdx_FPS_120 | FPSIdx_FPS_200 | FPSIdx_FPS_240 | FPSIdx_UNKNOWN

datatype EISMode =
    EISMode_OFF | EISMode_RS | EISMode_HS | EISMode_RS_P | EISMode_HB | EISMode_UNKNOWN

datatype PhotoRatio =
    PhotoRatio_RATIO_4_3 | PhotoRatio_RATIO_16_9 | PhotoRatio_UNKNOWN

datatype UserMode =
    UserMode_GENERAL | UserMode_CUSTOM_1 | UserMode_CUSTOM_2 | UserMode_CUSTOM_3
  | UserMode_CUSTOM_4 | UserMode_CUSTOM_5 | UserMode_UNKNOWN

datatype PowerMode =
    PowerMode_NORMAL | PowerMode_SLEEP | PowerMode_UNKNOWN

datatype TempOver =
    TempOver_NORMAL | TempOver_WARNING | TempOver_TOO_HIGH | TempOver_OVERHEAT | TempOver_UNKNOWN

text \<open>The member tables: value and member, in declaration order.\<close>

definition CameraMode_members :: "(int \<times> CameraMode) list" where
  "CameraMode_members =
     [(0x38, CameraMode_PANO_VIDEO), (0x3A, CameraMode_HYPERLAPSE), (0x3C, CameraMode_SELFIE),
      (0x3F, CameraMode_PANO_PHOTO), (0x41, CameraMode_BOOST_VIDEO), (0x43, CameraMode_VORTEX),
      (0x44, CameraMode_PANO_SUPER_NIGHT), (0x4A, CameraMode_SINGLE_LENS_SUPER_NIGHT),
      (-1, CameraMode_UNKNOWN)]"

definition ViewStatus_members :: "(int \<times> ViewStatus) list" where
  "ViewStatus_members =
     [(0x00, ViewStatus_SCREEN_OFF), (0x01, ViewStatus_LIVE_STREAMING), (0x02, ViewStatus_PLAYBACK),
      (0x03, ViewStatus_PHOTO_OR_RECORDING), (0x05, ViewStatus_PRE_RECORDING),
      (-1, ViewStatus_UNKNOWN)]"

definition VideoResolution_members :: "(int \<times> VideoResolution) list" where
  "VideoResolution_members =
     [(10, VideoResolution_RES_1080P), (16, VideoResolution_RES_4K), (45, VideoResolution_RES_27K),
      (66, VideoResolution_RES_1080P_9_16), (95, VideoResolution_RES_27K_4_3),
      (103, VideoResolution_RES_4K_4_3), (109, VideoResolution_RES_4K_9_16),
      (4, VideoResolution_RES_UW_30MP), (3, VideoResolution_RES_W_20MP),
      (2, VideoResolution_RES_STD_12MP), (-1, VideoResolution_UNKNOWN)]"

definition FPSIdx_members :: "(int \<times> FPSIdx) list" where
  "FPSIdx_members =
     [(1, FPSIdx_FPS_24), (2, FPSIdx_FPS_25), (3, FPSIdx_FPS_30), (4, FPSIdx_FPS_48),
      (5, FPSIdx_FPS_50), (6, FPSIdx_FPS_60), (10, FPSIdx_FPS_100), (7, FPSIdx_FPS_120),
      (19, FPSIdx_FPS_200), (8, FPSIdx_FPS_240), (-1, FPSIdx_UNKNOWN)]"

definition EISMode_members :: "(int \<times> EISMode) list" where
  "EISMode_members =
     [(0, EISMode_OFF), (1, EISMode_RS), (2, EISMode_HS), (3, EISMode_RS_P), (4, EISMode_HB),
      (-1, EISMode_UNKNOWN)]"

definition PhotoRatio_members :: "(int \<times> PhotoRatio) list" where
  "PhotoRatio_members =
     [(0, PhotoRatio_RATIO_4_3), (1, PhotoRatio_RATIO_16_9), (-1, PhotoRatio_UNKNOWN)]"

definition UserMode_members :: "(int \<times> UserMode) list" where
  "UserMode_members =
     [(0, UserMode_GENERAL), (1, UserMode_CUSTOM_1), (2, UserMode_CUSTOM_2),
      (3, UserMode_CUSTOM_3), (4, UserMode_CUSTOM_4), (5, UserMode_CUSTOM_5),
      (-1, UserMode_UNKNOWN)]"

definition PowerMode_members :: "(int \<times> PowerMode) list" where
  "PowerMode_members =
     [(0, PowerMode_NORMAL), (3, PowerMode_SLEEP), (-1, PowerMode_UNKNOWN)]"

definition TempOver_members :: "(int \<times> TempOver) list" where
  "TempOver_members =
     [(0, TempOver_NORMAL), (1, TempOver_WARNING), (2, TempOver_TOO_HIGH),
      (3, TempOver_OVERHEAT), (-1, TempOver_UNKNOWN)]"

text \<open>
  \<^verbatim>\<open>Cls(value)\<close> on an \<^verbatim>\<open>Enum\<close> class: the member with that value if there is one;
  otherwise the result of \<^verbatim>\<open>Cls._missing_(value)\<close>; and \<^verbatim>\<open>ValueError\<close> when that
  returns \<^verbatim>\<open>None\<close> (the behaviour of the base class).
\<close>

definition enum_call :: "(int \<times> 'a) list \<Rightarrow> (int \<Rightarrow> 'a option) \<Rightarrow> int \<Rightarrow> error + 'a" where
  "enum_call members missing v =
     (case map_of members v of
        Some m \<Rightarrow> Inr m
      | None \<Rightarrow> (case missing v of Some m \<Rightarrow> Inr m | None \<Rightarrow> Inl EnumValueError))"

text \<open>The \<^verbatim>\<open>_missing_\<close> override of each class, and the call \<^verbatim>\<open>Cls(value)\<close>.\<close>

definition CameraMode_missing :: "int \<Rightarrow> CameraMode option" where
  "CameraMode_missing v = Some CameraMode_UNKNOWN"

definition ViewStatus_missing :: "int \<Rightarrow> ViewStatus option" where
  "ViewStatus_missing v = Some ViewStatus_UNKNOWN"

definition VideoResolution_missing :: "int \<Rightarrow> VideoResolution option" where
  "VideoResolution_missing v = Some VideoResolution_UNKNOWN"

definition FPSIdx_missing :: "int \<Rightarrow> FPSIdx option" where
  "FPSIdx_missing v = Some FPSIdx_UNKNOWN"

definition EISMode_missing :: "int \<Rightarrow> EISMode option" where
  "EISMode_missing v = Some EISMode_UNKNOWN"

definition PhotoRatio_missing :: "int \<Rightarrow> PhotoRatio option" where
  "PhotoRatio_missing v = Some PhotoRatio_UNKNOWN"

definition UserMode_missing :: "int \<Rightarrow> UserMode option" where
  "UserMode_missing v = Some UserMode_UNKNOWN"

definition PowerMode_missing :: "int \<Rightarrow> PowerMode option" where
  "PowerMode_missing v = Some PowerMode_UNKNOWN"

definition TempOver_missing :: "int \<Rightarrow> TempOver option" where
  "TempOver_missing v = Some TempOver_UNKNOWN"

definition CameraMode_of :: "int \<Rightarrow> error + CameraMode" where
  "CameraMode_of v = enum_call CameraMode_members CameraMode_missing v"

definition ViewStatus_of :: "int \<Rightarrow> error + ViewStatus" where
  "ViewStatus_of v = enum_call ViewStatus_members ViewStatus_missing v"

definition VideoResolution_of :: "int \<Rightarrow> error + VideoResolution" where
  "VideoResolution_of v = enum_call VideoResolution_members VideoResolution_missing v"

definition FPSIdx_of :: "int \<Rightarrow> error + FPSIdx" where
  "FPSIdx_of v = enum_call FPSIdx_members FPSIdx_missing v"

definition EISMode_of :: "int \<Rightarrow> error + EISMode" where
  "EISMode_of v = enum_call EISMode_members EISMode_missing v"

definition PhotoRatio_of :: "int \<Rightarrow> error + PhotoRatio" where
  "PhotoRatio_of v = enum_call PhotoRatio_members PhotoRatio_missing v"

definition UserMode_of :: "int \<Rightarrow> error + UserMode" where
  "UserMode_of v = enum_call UserMode_members UserMode_missing v"

definition PowerMode_of :: "int \<Rightarrow> error + PowerMode" where
  "PowerMode_of v = enum_call PowerMode_members PowerMode_missing v"

definition TempOver_of :: "int \<Rightarrow> error + TempOver" where
  "TempOver_of v = enum_call TempOver_members TempOver_missing v"

text \<open>\<^verbatim>\<open>mode.value\<close> of a \<^verbatim>\<open>CameraMode\<close> member, as \<^verbatim>\<open>setMode\<close> reads it.\<close>

fun CameraMode_value :: "CameraMode \<Rightarrow> int" where
  "CameraMode_value CameraMode_PANO_VIDEO = 0x38"
| "CameraMode_value CameraMode_HYPERLAPSE = 0x3A"
| "CameraMode_value CameraMode_SELFIE = 0x3C"
| "CameraMode_value CameraMode_PANO_PHOTO = 0x3F"
| "CameraMode_value CameraMode_BOOST_VIDEO = 0x41"
| "CameraMode_value CameraMode_VORTEX = 0x43"
| "CameraMode_value CameraMode_PANO_SUPER_NIGHT = 0x44"
| "CameraMode_value CameraMode_SINGLE_LENS_SUPER_NIGHT = 0x4A"
| "CameraMode_value CameraMode_UNKNOWN = -1"

text \<open>
  \<^verbatim>\<open>data[i]\<close> on bytes raises \<^verbatim>\<open>IndexError\<close> out of range; \<^verbatim>\<open>struct.unpack('<H', s)\<close>
  and \<^verbatim>\<open>struct.unpack('<I', s)\<close> raise \<^verbatim>\<open>struct.error\<close> unless \<open>s\<close> has exactly 2
  or 4 bytes, and a slice of a short buffer is short.
\<close>

definition byte_at :: "byte list \<Rightarrow> nat \<Rightarrow> error + int" where
  "byte_at bs i = (if i < length bs then Inr (uint (bs ! i)) else Inl IndexError)"

definition unpack_uint :: "nat \<Rightarrow> byte list \<Rightarrow> error + int" where
  "unpack_uint n bs = (if length bs = n then Inr (from_bytes_le bs) else Inl StructError)"

text \<open>
  The class \<^verbatim>\<open>CameraStatus\<close> with its class-level defaults. The attribute \<^verbatim>\<open>data\<close> has
  no default (it is only annotated): \<open>None\<close> until \<^verbatim>\<open>parseFromData\<close> stores it.
\<close>

record CameraStatus =
  camera_mode :: CameraMode
  view_status :: ViewStatus
  video_resolution :: VideoResolution
  fps_idx :: FPSIdx
  eis_mode :: EISMode
  record_time :: int
  fov_type :: int
  photo_ratio :: PhotoRatio
  real_time_countdown :: int
  timelaps_interval :: int
  timelaps_duration :: int
  remain_capacity :: int
  remain_photo_num :: int
  remain_time :: int
  user_mode :: UserMode
  power_mode :: PowerMode
  temp_over :: TempOver
  photo_countdown_ms :: int
  loop_record_sends :: int
  camera_bat_percentage :: int
  status_data :: "byte list option"

definition CameraStatus_init :: CameraStatus where
  "CameraStatus_init =
     \<lparr> camera_mode = CameraMode_PANO_VIDEO,
       view_status = ViewStatus_LIVE_STREAMING,
       video_resolution = VideoResolution_RES_1080P,
       fps_idx = FPSIdx_FPS_24,
       eis_mode = EISMode_HB,
       record_time = -1,
       fov_type = -1,
       photo_ratio = PhotoRatio_RATIO_4_3,
       real_time_countdown = -1,
       timelaps_interval = -1,
       timelaps_duration = -1,
       remain_capacity = -1,
       remain_photo_num = -1,
       remain_time = -1,
       user_mode = UserMode_GENERAL,
       power_mode = PowerMode_NORMAL,
       temp_over = TempOver_NORMAL,
       photo_countdown_ms = -1,
       loop_record_sends = -1,
       camera_bat_percentage = -1,
       status_data = None \<rparr>"

text \<open>
  \<^verbatim>\<open>CameraStatus.parseFromData(self, data)\<close>: nineteen reads in source order, each of
  which may raise, then the assignment of \<^verbatim>\<open>self.data\<close>. The result is the updated
  object, or the first exception.
\<close>

definition parseFromData :: "CameraStatus \<Rightarrow> byte list \<Rightarrow> error + CameraStatus" where
  "parseFromData self data =
     thn (thn (byte_at data 0) CameraMode_of) (\<lambda>v0.
     thn (thn (byte_at data 1) ViewStatus_of) (\<lambda>v1.
     thn (thn (byte_at data 2) VideoResolution_of) (\<lambda>v2.
     thn (thn (byte_at data 3) FPSIdx_of) (\<lambda>v3.
     thn (thn (byte_at data 4) EISMode_of) (\<lambda>v4.
     thn (unpack_uint 2 (py_slice data 5 7)) (\<lambda>v5.
     thn (thn (byte_at data 8) PhotoRatio_of) (\<lambda>v8.
     thn (unpack_uint 2 (py_slice data 9 11)) (\<lambda>v9.
     thn (unpack_uint 2 (py_slice data 11 13)) (\<lambda>v11.
     thn (unpack_uint 2 (py_slice data 13 15)) (\<lambda>v13.
     thn (unpack_uint 4 (py_slice data 15 19)) (\<lambda>v15.
     thn (unpack_uint 4 (py_slice data 19 23)) (\<lambda>v19.
     thn (unpack_uint 4 (py_slice data 23 27)) (\<lambda>v23.
     thn (thn (byte_at data 28) UserMode_of) (\<lambda>v28.
     thn (thn (byte_at data 29) PowerMode_of) (\<lambda>v29.
     thn (thn (byte_at data 30) TempOver_of) (\<lambda>v30.
     thn (unpack_uint 4 (py_slice data 31 35)) (\<lambda>v31.
     thn (unpack_uint 2 (py_slice data 35 37)) (\<lambda>v35.
     thn (byte_at data 37) (\<lambda>v37.
     Inr (self\<lparr> camera_mode := v0,
                view_status := v1,
                video_resolution := v2,
                fps_idx := v3,
                eis_mode := v4,
                record_time := v5,
                photo_ratio := v8,
                real_time_countdown := v9,
                timelaps_interval := v11,
                timelaps_duration := v13,
                remain_capacity := v15,
                remain_photo_num := v19,
                remain_time := v23,
                user_mode := v28,
                power_mode := v29,
                temp_over := v30,
                photo_countdown_ms := v31,
                loop_record_sends := v35,
                camera_bat_percentage := v37,
                status_data := Some data \<rparr>))))))))))))))))))))"

section \<open>The controller object and its transport\<close>

text \<open>
  \<^verbatim>\<open>struct.pack\<close> with the little-endian, unpadded formats the code uses: an unsigned
  field of \<open>n\<close> bytes (\<^verbatim>\<open>B\<close>, \<^verbatim>\<open>H\<close>, \<^verbatim>\<open>I\<close>) raises \<^verbatim>\<open>struct.error\<close> when the value is
  out of range; a field \<^verbatim>\<open>ns\<close> truncates or zero-pads the bytes to \<open>n\<close>.
\<close>

definition pack_uint :: "nat \<Rightarrow> int \<Rightarrow> error + byte list" where
  "pack_uint n v =
     (if 0 \<le> v \<and> v < 2 ^ (8 * n) then Inr (le_bytes n v) else Inl StructError)"

definition pack_s :: "nat \<Rightarrow> byte list \<Rightarrow> byte list" where
  "pack_s n bs = take n (bs @ replicate n 0)"

definition pack_IB4s :: "int \<Rightarrow> int \<Rightarrow> byte list \<Rightarrow> error + byte list" where
  "pack_IB4s a b c =
     thn (pack_uint 4 a) (\<lambda>x. thn (pack_uint 1 b) (\<lambda>y. Inr (x @ y @ pack_s 4 c)))"

definition pack_BB4s :: "int \<Rightarrow> int \<Rightarrow> byte list \<Rightarrow> error + byte list" where
  "pack_BB4s a b c =
     thn (pack_uint 1 a) (\<lambda>x. thn (pack_uint 1 b) (\<lambda>y. Inr (x @ y @ pack_s 4 c)))"


text \<open>
  Python values that meet in an \<^verbatim>\<open>==\<close>: a \<^verbatim>\<open>bytes\<close> object and an \<^verbatim>\<open>int\<close> are never
  equal (both \<^verbatim>\<open>__eq__\<close> methods return \<^verbatim>\<open>NotImplemented\<close> and the comparison falls
  back to identity).
\<close>

datatype pyval = PyBytes "byte list" | PyInt int

fun py_eq :: "pyval \<Rightarrow> pyval \<Rightarrow> bool" where
  "py_eq (PyBytes a) (PyBytes b) = (a = b)"
| "py_eq (PyInt a) (PyInt b) = (a = b)"
| "py_eq (PyBytes a) (PyInt b) = False"
| "py_eq (PyInt a) (PyBytes b) = False"

text \<open>
  The attributes of an \<^verbatim>\<open>Osmo360\<close> object that the modelled methods read or write.
  \<^item> \<open>client\<close>: \<open>None\<close> when there is no \<^verbatim>\<open>BleakClient\<close>, else \<open>Some c\<close> with
    \<open>c\<close> its \<^verbatim>\<open>is_connected\<close>.
  \<^item> \<open>device_id\<close> and \<open>last_response_frame\<close> do not exist before their first
    assignment: \<open>None\<close>. \<open>last_response_frame\<close> is also \<open>None\<close> when it holds \<^verbatim>\<open>None\<close>.
  \<^item> \<open>response_received\<close>, \<open>notification_received\<close>: the two \<^verbatim>\<open>asyncio.Event\<close> flags.
  \<^item> \<open>cameraStatusCallbacks\<close>: the list of callbacks; a callback is opaque and is
    named by a number. Callbacks are taken to return normally and not to touch the object.
  \<^item> \<open>local_mac\<close>: the bytes \<^verbatim>\<open>_parse_mac_address(self.local_mac)\<close> yields.
  Two logs record what leaves the object: \<open>written\<close>, the buffers handed to
  \<^verbatim>\<open>write_gatt_char\<close>, oldest first; \<open>delivered\<close>, the callback invocations.
  Printing is not modelled, and neither is the attribute \<^verbatim>\<open>cameraStatus\<close>, which the
  methods write and never read.
\<close>

record osmo =
  client :: "bool option"
  device_id :: "int option"
  last_response_frame :: "frame option"
  response_received :: bool
  last_notification_data :: "frame option"
  notification_received :: bool
  cameraStatusCallbacks :: "nat list"
  local_mac :: "byte list"
  written :: "byte list list"
  delivered :: "(nat \<times> CameraStatus) list"

definition is_connected :: "osmo \<Rightarrow> bool" where
  "is_connected st \<longleftrightarrow> client st = Some True"

text \<open>
  \<^verbatim>\<open>_notification_handler(sender, data)\<close>. Both \<^verbatim>\<open>except\<close> clauses only print, so a
  buffer that fails to parse leaves the object as it was, and a status payload that
  fails to decode leaves it with the notification recorded and no callback invoked.
\<close>

definition notification_handler :: "byte list \<Rightarrow> osmo \<Rightarrow> osmo" where
  "notification_handler data st =
     (case parse_dji_frame data of
        Inl e \<Rightarrow> st
      | Inr frame \<Rightarrow>
          if f_frame_type frame = 1 then
            st\<lparr>last_response_frame := Some frame, response_received := True\<rparr>
          else
            let st = st\<lparr>last_notification_data := Some frame, notification_received := True\<rparr>
            in
            if f_cmd_set frame = 29 \<and> f_cmd_id frame = 2 then
              (case parseFromData CameraStatus_init (f_data frame) of
                 Inl e \<Rightarrow> st
               | Inr cameraStatus \<Rightarrow>
                   st\<lparr>delivered := delivered st @
                         map (\<lambda>cb. (cb, cameraStatus)) (cameraStatusCallbacks st)\<rparr>)
            else st)"

text \<open>
  An \<^verbatim>\<open>await\<close> gives the event loop the chance to run the notification handler. What
  the transport does during an \<^verbatim>\<open>await\<close> is scripted: the list of buffers the handler
  processes, in arrival order, before the awaiting method runs again.
\<close>

definition deliver :: "byte list list \<Rightarrow> osmo \<Rightarrow> osmo" where
  "deliver bufs st = fold notification_handler bufs st"

text \<open>
  The script of one \<^verbatim>\<open>send_dji_command\<close>: the buffers arriving while the write is
  awaited, and those arriving within the \<open>timeout\<close> of the wait for the response.
\<close>

record script =
  during_write :: "byte list list"
  during_wait :: "byte list list"

text \<open>
  \<^verbatim>\<open>send_dji_command(cmd_set, cmd_id, payload, wait_for_response, timeout, is_response)\<close>.
  \<^verbatim>\<open>asyncio.wait_for(self.response_received.wait(), timeout)\<close> returns when the flag is
  set and raises \<^verbatim>\<open>TimeoutError\<close>, caught here, when the window passes with the flag
  clear. The result pairs the returned value or raised exception with the object
  after the call: an exception does not undo the assignments made before it.
\<close>

definition send_dji_command ::
  "int \<Rightarrow> int \<Rightarrow> byte list \<Rightarrow> bool \<Rightarrow> bool \<Rightarrow> script \<Rightarrow> osmo \<Rightarrow> (error + frame option) \<times> osmo" where
  "send_dji_command cmd_set cmd_id payload wait_for_response is_response env st =
     (if \<not> is_connected st then (Inl NotConnected, st)
      else
        let wait_for_response = (if is_response then False else wait_for_response);
            st = st\<lparr>last_response_frame := None\<rparr>
        in
        case build_dji_frame cmd_set cmd_id payload is_response 1 of
          Inl e \<Rightarrow> (Inl e, st)
        | Inr frame \<Rightarrow>
            let st = deliver (during_write env) (st\<lparr>written := written st @ [frame]\<rparr>) in
            if last_response_frame st \<noteq> None then (Inr (last_response_frame st), st)
            else if wait_for_response then
              let st = st\<lparr>response_received := False\<rparr>;
                  st = deliver (during_wait env) st
              in
              if response_received st then (Inr (last_response_frame st), st)
              else (Inr None, st)
            else (Inr None, st))"

subsection \<open>Camera commands\<close>

text \<open>
  The four commands end with \<^verbatim>\<open>return resp is not None and resp['data'] == 0x00\<close>,
  where \<^verbatim>\<open>resp['data']\<close> is the \<^verbatim>\<open>bytes\<close> payload of the frame.
\<close>

definition command_ok :: "frame option \<Rightarrow> bool" where
  "command_ok resp =
     (case resp of None \<Rightarrow> False | Some r \<Rightarrow> py_eq (PyBytes (f_data r)) (PyInt 0x00))"

definition setMode :: "CameraMode \<Rightarrow> script \<Rightarrow> osmo \<Rightarrow> (error + bool) \<times> osmo" where
  "setMode mode env st =
     (case device_id st of
        None \<Rightarrow> (Inl AttributeError, st)
      | Some dev \<Rightarrow>
          (case pack_IB4s dev (CameraMode_value mode) [0x00, 0x00, 0x00, 0x00] of
             Inl e \<Rightarrow> (Inl e, st)
           | Inr ack_payload \<Rightarrow>
               (case send_dji_command 0x1D 0x04 ack_payload True False env st of
                  (Inl e, st') \<Rightarrow> (Inl e, st')
                | (Inr resp, st') \<Rightarrow> (Inr (command_ok resp), st'))))"

definition startRecording :: "script \<Rightarrow> osmo \<Rightarrow> (error + bool) \<times> osmo" where
  "startRecording env st =
     (case device_id st of
        None \<Rightarrow> (Inl AttributeError, st)
      | Some dev \<Rightarrow>
          (case pack_IB4s dev 0x00 [0x00, 0x00, 0x00, 0x00] of
             Inl e \<Rightarrow> (Inl e, st)
           | Inr ack_payload \<Rightarrow>
               (case send_dji_command 0x1D 0x03 ack_payload True False env st of
                  (Inl e, st') \<Rightarrow> (Inl e, st')
                | (Inr resp, st') \<Rightarrow> (Inr (command_ok resp), st'))))"

definition stopRecording :: "script \<Rightarrow> osmo \<Rightarrow> (error + bool) \<times> osmo" where
  "stopRecording env st =
     (case device_id st of
        None \<Rightarrow> (Inl AttributeError, st)
      | Some dev \<Rightarrow>
          (case pack_IB4s dev 0x01 [0x00, 0x00, 0x00, 0x00] of
             Inl e \<Rightarrow> (Inl e, st)
           | Inr ack_payload \<Rightarrow>
               (case send_dji_command 0x1D 0x03 ack_payload True False env st of
                  (Inl e, st') \<Rightarrow> (Inl e, st')
                | (Inr resp, st') \<Rightarrow> (Inr (command_ok resp), st'))))"

definition grabImage :: "script \<Rightarrow> osmo \<Rightarrow> (error + bool) \<times> osmo" where
  "grabImage env st =
     (case device_id st of
        None \<Rightarrow> (Inl AttributeError, st)
      | Some dev \<Rightarrow>
          (case pack_IB4s dev 0x00 [0x00, 0x00, 0x00, 0x00] of
             Inl e \<Rightarrow> (Inl e, st)
           | Inr ack_payload \<Rightarrow>
               (case send_dji_command 0x1D 0x03 ack_payload True False env st of
                  (Inl e, st') \<Rightarrow> (Inl e, st')
                | (Inr resp, st') \<Rightarrow> (Inr (command_ok resp), st'))))"

subsection \<open>Status subscriptions\<close>

text \<open>
  \<^verbatim>\<open>subscribeCameraStatus(callback)\<close> sends the command and then appends the callback;
  \<^verbatim>\<open>unSubscribeCameraStatus(callback)\<close> removes the first occurrence of the callback
  (\<^verbatim>\<open>list.remove\<close> raises \<^verbatim>\<open>ValueError\<close> when there is none) and sends only when the
  list has become empty. It has no \<^verbatim>\<open>return\<close>: the result is \<open>()\<close>.
\<close>

definition subscribeCameraStatus ::
  "nat \<Rightarrow> script \<Rightarrow> osmo \<Rightarrow> (error + frame option) \<times> osmo" where
  "subscribeCameraStatus callback env st =
     (case pack_BB4s 0x02 0x14 [0x00, 0x00, 0x00, 0x00] of
        Inl e \<Rightarrow> (Inl e, st)
      | Inr ack_payload \<Rightarrow>
          (case send_dji_command 0x1D 0x05 ack_payload True False env st of
             (Inl e, st') \<Rightarrow> (Inl e, st')
           | (Inr resp, st') \<Rightarrow>
               (Inr resp,
                st'\<lparr>cameraStatusCallbacks := cameraStatusCallbacks st' @ [callback]\<rparr>)))"

definition unSubscribeCameraStatus ::
  "nat \<Rightarrow> script \<Rightarrow> osmo \<Rightarrow> (error + unit) \<times> osmo" where
  "unSubscribeCameraStatus callback env st =
     (if callback \<notin> set (cameraStatusCallbacks st) then (Inl RemoveMissing, st)
      else
        let st = st\<lparr>cameraStatusCallbacks := remove1 callback (cameraStatusCallbacks st)\<rparr>
        in
        if length (cameraStatusCallbacks st) = 0 then
          (case pack_BB4s 0x00 0x14 [0x00, 0x00, 0x00, 0x00] of
             Inl e \<Rightarrow> (Inl e, st)
           | Inr ack_payload \<Rightarrow>
               (case send_dji_command 0x1D 0x05 ack_payload True False env st of
                  (Inl e, st') \<Rightarrow> (Inl e, st')
                | (Inr resp, st') \<Rightarrow> (Inr (), st')))
        else (Inr (), st))"

subsection \<open>Pairing handshake\<close>

text \<open>
  What \<^verbatim>\<open>connect\<close> returns, one constructor for each way out of the method, in source
  order. Python's value is the device id for \<open>Paired\<close>, \<^verbatim>\<open>None\<close> for \<open>NoOutcome\<close> (the
  method runs off its end) and \<^verbatim>\<open>False\<close> for every other one.
\<close>

datatype connect_outcome =
    NoResponse            \<comment> \<open>"No response received for connection request"\<close>
  | WrongResponse         \<comment> \<open>"Response frame does not belong to connection request"\<close>
  | NotAResponse          \<comment> \<open>"Response frame is not of response type"\<close>
  | ResponseTooShort      \<comment> \<open>"Response data too short"\<close>
  | RequestRejected int   \<comment> \<open>"Connection request rejected, error code: ..."\<close>
  | Paired int            \<comment> \<open>"Camera allows connection": \<^verbatim>\<open>return self.device_id\<close>\<close>
  | Denied                \<comment> \<open>"Camera denies connection"\<close>
  | TimedOut              \<comment> \<open>"Timeout while waiting for camera connection request"\<close>
  | Failed error          \<comment> \<open>"Error parsing connection response: ..."\<close>
  | NoOutcome             \<comment> \<open>no \<^verbatim>\<open>return\<close> statement reached\<close>

text \<open>
  The part of \<^verbatim>\<open>connect\<close> after the request was accepted (from "Waiting for connection
  request from camera..." on): one wait of at most 10 seconds for
  \<open>notification_received\<close>, then the checks on \<open>last_notification_data\<close>. \<open>approval\<close>
  scripts the buffers arriving during that wait, \<open>env_ack\<close> the sending of the
  acknowledgement. An exception raised while acknowledging is caught by the outer
  \<^verbatim>\<open>except Exception\<close>.
\<close>

definition connect_await_approval ::
  "byte list list \<Rightarrow> script \<Rightarrow> osmo \<Rightarrow> connect_outcome \<times> osmo" where
  "connect_await_approval approval env_ack st =
     (let st = st\<lparr>notification_received := False\<rparr>;
          st = deliver approval st
      in
      if \<not> notification_received st then (TimedOut, st)
      else
        case last_notification_data st of
          None \<Rightarrow> (NoOutcome, st)
        | Some frame \<Rightarrow>
            if f_cmd_set frame = 0x00 \<and> f_cmd_id frame = 0x19 \<and> f_frame_type frame = 0 then
              if length (f_data frame) \<ge> 29 then
                let cam_verify_mode = uint (f_data frame ! 26);
                    cam_verify_data = from_bytes_le (py_slice (f_data frame) 27 29)
                in
                if cam_verify_mode = 2 then
                  if cam_verify_data = 0 then
                    (case pack_IB4s 0x12345678 0x00 [0x00, 0x00, 0x00, 0x00] of
                       Inl e \<Rightarrow> (Failed e, st)
                     | Inr ack_payload \<Rightarrow>
                         (case send_dji_command 0x00 0x19 ack_payload True True env_ack st of
                            (Inl e, st') \<Rightarrow> (Failed e, st')
                          | (Inr resp, st') \<Rightarrow>
                              (case device_id st' of
                                 None \<Rightarrow> (Failed AttributeError, st')
                               | Some dev \<Rightarrow> (Paired dev, st'))))
                  else
                    (Denied,
                     case client st of
                       None \<Rightarrow> st
                     | Some c \<Rightarrow> st\<lparr>client := Some False\<rparr>)
                else (NoOutcome, st)
              else (NoOutcome, st)
            else (NoOutcome, st))"


section \<open>Notions used in the statements\<close>

text \<open>A value that fits in \<open>w\<close> bits, and the three facts about a table that the checksum
  arguments need: 256 entries, each of \<open>w\<close> bits, with pairwise different top bytes.\<close>

definition in_bits :: "nat \<Rightarrow> int \<Rightarrow> bool" where
  "in_bits w x \<longleftrightarrow> 0 \<le> x \<and> x < 2 ^ w"

definition crc_table_ok :: "int list \<Rightarrow> nat \<Rightarrow> bool" where
  "crc_table_ok table w \<longleftrightarrow>
     8 \<le> w \<and> length table = 256 \<and> list_all (in_bits w) table \<and>
     distinct (map (drop_bit (w - 8)) table)"

definition tbl_idx :: "int \<Rightarrow> byte \<Rightarrow> nat" where
  "tbl_idx crc b = nat ((crc XOR uint b) AND 0xFF)"

text \<open>
  The layout of a built frame: the ten header bytes for a declared length and a CmdType
  byte, and the frame assembled from a header and a data section with the two
  checksums in place.
\<close>

definition cmd_type_of :: "bool \<Rightarrow> int \<Rightarrow> int" where
  "cmd_type_of is_response ack_type =
     (if is_response then (ack_type AND 0x1F) OR 0x20 else ack_type AND 0x1F)"

definition frame_header :: "int \<Rightarrow> int \<Rightarrow> byte list" where
  "frame_header len cmd_type =
     [0xAA, word_of_int len, word_of_int (drop_bit 8 len), word_of_int cmd_type,
      0x00, 0x00, 0x00, 0x00, 0x01, 0x00]"

definition assemble :: "byte list \<Rightarrow> byte list \<Rightarrow> byte list" where
  "assemble hdr dat =
     (let c16 = le_bytes 2 (ccrc16 hdr ccrc16_init)
      in hdr @ c16 @ dat @ le_bytes 4 (ccrc32 (hdr @ c16 @ dat) ccrc32_init))"

text \<open>The length a buffer declares in its Ver/Length field (bytes 1 and 2, low ten bits).\<close>

definition declared_length :: "byte list \<Rightarrow> int" where
  "declared_length buf = from_bytes_le (py_slice buf 1 3) AND 0x3FF"

text \<open>Two frames used as concrete inputs: the command \<open>(0x1D, 0x04)\<close> with an empty
  payload and with the payload \<open>1, 2, 3, 4, 5\<close>, as \<^verbatim>\<open>build_dji_frame\<close> emits them.\<close>

definition frame_1D_04_empty :: "byte list" where
  "frame_1D_04_empty =
     [0xAA, 18, 0, 1, 0, 0, 0, 0, 1, 0, 63, 126, 0x1D, 0x04, 21, 110, 223, 67]"

definition frame_1D_04_12345 :: "byte list" where
  "frame_1D_04_12345 =
     [0xAA, 23, 0, 1, 0, 0, 0, 0, 1, 0, 0, 46, 0x1D, 0x04, 1, 2, 3, 4, 5, 194, 5, 5, 239]"

text \<open>
  How the notification handler classifies a buffer: a response (it decodes, with frame
  type 1), a command-type notification (it decodes, with another frame type), or
  neither (it does not decode and is dropped).
\<close>

definition is_response_buffer :: "byte list \<Rightarrow> bool" where
  "is_response_buffer buf =
     (case parse_dji_frame buf of Inl e \<Rightarrow> False | Inr f \<Rightarrow> f_frame_type f = 1)"



text \<open>
  Concrete inputs: a connected controller that knows its device id and has no
  subscriber, the same with one subscriber, a transport on which nothing arrives, and
  the frames of the two broadcast commands as \<^verbatim>\<open>build_dji_frame\<close> emits them
  (\<open>(0x1D, 0x05)\<close> with payload \<^verbatim>\<open>02 14 00 00 00 00\<close> to start, \<^verbatim>\<open>00 14 00 00 00 00\<close> to
  stop).
\<close>

definition osmo_ready :: osmo where
  "osmo_ready =
     \<lparr> client = Some True, device_id = Some 0x11223344, last_response_frame = None,
       response_received = False, last_notification_data = None,
       notification_received = False, cameraStatusCallbacks = [],
       local_mac = [0x01, 0x02, 0x03, 0x04, 0x05, 0x06], written = [], delivered = [] \<rparr>"

definition osmo_one_subscriber :: osmo where
  "osmo_one_subscriber = osmo_ready\<lparr>cameraStatusCallbacks := [1]\<rparr>"

definition silence :: script where
  "silence = \<lparr> during_write = [], during_wait = [] \<rparr>"

definition start_broadcast_frame :: "byte list" where
  "start_broadcast_frame =
     [0xAA, 24, 0, 1, 0, 0, 0, 0, 1, 0, 65, 222, 0x1D, 0x05, 0x02, 0x14, 0, 0, 0, 0,
      28, 119, 28, 118]"

definition stop_broadcast_frame :: "byte list" where
  "stop_broadcast_frame =
     [0xAA, 24, 0, 1, 0, 0, 0, 0, 1, 0, 65, 222, 0x1D, 0x05, 0x00, 0x14, 0, 0, 0, 0,
      23, 214, 212, 59]"

text \<open>
  Buffers a camera may send: a status broadcast \<open>(0x1D, 0x02)\<close> with an empty payload;
  the response to \<open>(0x1D, 0x03)\<close> whose payload is the single byte \<open>0x00\<close>; the response
  accepting a connection request \<open>(0x00, 0x19)\<close>, device id 0 and return code 0.
\<close>

definition status_broadcast_empty :: "byte list" where
  "status_broadcast_empty =
     [0xAA, 18, 0, 1, 0, 0, 0, 0, 1, 0, 63, 126, 0x1D, 0x02, 32, 203, 188, 170]"

definition response_1D_03_zero :: "byte list" where
  "response_1D_03_zero =
     [0xAA, 19, 0, 33, 0, 0, 0, 0, 1, 0, 19, 44, 0x1D, 0x03, 0x00, 224, 146, 212, 194]"

definition response_accept :: "byte list" where
  "response_accept =
     [0xAA, 23, 0, 33, 0, 0, 0, 0, 1, 0, 33, 236, 0x00, 0x19, 0, 0, 0, 0, 0,
      183, 42, 91, 109]"

text \<open>A transport that answers a command, within the wait, with that response.\<close>

definition zero_reply :: script where
  "zero_reply = \<lparr> during_write = [], during_wait = [response_1D_03_zero] \<rparr>"


text \<open>A notification on the approval command \<open>(0x00, 0x19)\<close> whose payload has only 28
  bytes, as \<^verbatim>\<open>build_dji_frame\<close> emits it.\<close>

definition approval_short :: "byte list" where
  "approval_short =
     [0xAA, 46, 0, 1, 0, 0, 0, 0, 1, 0, 62, 127, 0x00, 0x19,
      0, 0, 0, 0, 0, 0, 0, 0, 0, 0, 0, 0, 0, 0, 0, 0, 0, 0, 0, 0, 0, 0, 0, 0, 0, 0, 0, 0,
      7, 232, 37, 241]"

text \<open>A well-formed approval on \<open>(0x00, 0x19)\<close>: a payload of 29 bytes with verification
  mode 2 at offset 26 and verification result 0 at offsets 27 and 28.\<close>

definition approval_allow :: "byte list" where
  "approval_allow =
     [0xAA, 47, 0, 1, 0, 0, 0, 0, 1, 0, 51, 239, 0x00, 0x19,
      0, 0, 0, 0, 0, 0, 0, 0, 0, 0, 0, 0, 0, 0, 0, 0, 0, 0, 0, 0, 0, 0, 0, 0, 0, 0, 2, 0, 0,
      140, 171, 103, 74]"

section \<open>Checksum engine: properties\<close>

lemma DJI_CRC16_TABLE_length: "length DJI_CRC16_TABLE = 256"
  by (simp add: DJI_CRC16_TABLE_def)

lemma DJI_CRC32_TABLE_length: "length DJI_CRC32_TABLE = 256"
  by (simp add: DJI_CRC32_TABLE_def)

lemma DJI_CRC16_TABLE_range: "list_all (\<lambda>x. 0 \<le> x \<and> x < 2 ^ 16) DJI_CRC16_TABLE"
  by (simp add: DJI_CRC16_TABLE_def)

lemma DJI_CRC32_TABLE_range: "list_all (\<lambda>x. 0 \<le> x \<and> x < 2 ^ 32) DJI_CRC32_TABLE"
  by (simp add: DJI_CRC32_TABLE_def)

lemma DJI_CRC16_TABLE_high: "distinct (map (drop_bit 8) DJI_CRC16_TABLE)"
  by code_simp

lemma DJI_CRC32_TABLE_high: "distinct (map (drop_bit 24) DJI_CRC32_TABLE)"
  by code_simp

lemma and_255: "(x :: int) AND 0xFF = take_bit 8 x"
  by (simp add: take_bit_eq_mask mask_eq_exp_minus_1)

lemma and_ffff: "(x :: int) AND 0xFFFF = take_bit 16 x"
  by (simp add: take_bit_eq_mask mask_eq_exp_minus_1)

lemma and_ffffffff: "(x :: int) AND 0xFFFFFFFF = take_bit 32 x"
  by (simp add: take_bit_eq_mask mask_eq_exp_minus_1)

lemma tbl_idx_range: "nat ((crc XOR uint (b :: byte)) AND 0xFF) < 256"
proof -
  have "take_bit 8 (crc XOR uint b) < 2 ^ 8" by (rule take_bit_int_less_exp)
  moreover have "0 \<le> take_bit 8 (crc XOR uint b)" by simp
  ultimately show ?thesis by (simp add: and_255)
qed

lemma ccrc16_loop_spec: "ccrc16_loop crc bs = foldl (spec_crc_step DJI_CRC16_TABLE 16) crc bs"
  by (induction bs arbitrary: crc) (simp_all add: spec_crc_step_def and_ffff Let_def)

lemma ccrc32_loop_spec: "ccrc32_loop crc bs = foldl (spec_crc_step DJI_CRC32_TABLE 32) crc bs"
  by (induction bs arbitrary: crc) (simp_all add: spec_crc_step_def and_ffffffff Let_def)

lemma in_bits_take_bit: "in_bits w x \<longleftrightarrow> take_bit w x = x"
  by (simp add: in_bits_def take_bit_int_eq_self_iff)

lemma spec_crc_step_in_bits: "in_bits w (spec_crc_step table w crc b)"
  unfolding in_bits_take_bit spec_crc_step_def by simp

lemma in_bits_xor: "in_bits w x \<Longrightarrow> in_bits w y \<Longrightarrow> in_bits w (x XOR y)"
  unfolding in_bits_take_bit by simp

lemma in_bits_drop_bit: "in_bits w x \<Longrightarrow> in_bits w (drop_bit n x)"
  unfolding in_bits_take_bit
  by (metis add.commute drop_bit_drop_bit drop_bit_of_0 take_bit_eq_self_iff_drop_bit_eq_0)

lemma in_bits_drop_all: "in_bits w x \<Longrightarrow> drop_bit w x = 0"
  unfolding in_bits_take_bit
  by (metis take_bit_eq_self_iff_drop_bit_eq_0)

lemma table_nth_in_bits: "crc_table_ok table w \<Longrightarrow> i < 256 \<Longrightarrow> in_bits w (table ! i)"
  by (simp add: crc_table_ok_def list_all_length)

lemma table_high_inj:
  assumes ok: "crc_table_ok table w" and i: "i < 256" and j: "j < 256"
    and eq: "drop_bit (w - 8) (table ! i) = drop_bit (w - 8) (table ! j)"
  shows "i = j"
proof -
  let ?hs = "map (drop_bit (w - 8)) table"
  have d: "distinct ?hs" and l: "length ?hs = 256"
    using ok by (simp_all add: crc_table_ok_def)
  have "?hs ! i = ?hs ! j" using eq i j l by simp
  then show ?thesis using nth_eq_iff_index_eq [OF d, of i j] i j l by simp
qed

lemma table_inj:
  assumes ok: "crc_table_ok table w" and i: "i < 256" and j: "j < 256"
    and eq: "table ! i = table ! j"
  shows "i = j"
  using table_high_inj [OF ok i j] eq by simp

lemma tbl_idx_less: "tbl_idx crc b < 256"
  by (simp add: tbl_idx_def tbl_idx_range)

lemma step_unmasked:
  assumes ok: "crc_table_ok table w" and c: "in_bits w crc"
  shows "spec_crc_step table w crc b = table ! tbl_idx crc b XOR drop_bit 8 crc"
proof -
  have "in_bits w (table ! tbl_idx crc b XOR drop_bit 8 crc)"
    by (intro in_bits_xor table_nth_in_bits [OF ok] tbl_idx_less in_bits_drop_bit c)
  then show ?thesis
    unfolding spec_crc_step_def tbl_idx_def [symmetric] in_bits_take_bit .
qed

lemma step_high:
  assumes ok: "crc_table_ok table w" and c: "in_bits w crc"
  shows "drop_bit (w - 8) (spec_crc_step table w crc b) =
         drop_bit (w - 8) (table ! tbl_idx crc b)"
proof -
  have w: "8 \<le> w" using ok by (simp add: crc_table_ok_def)
  have "drop_bit (w - 8) (drop_bit 8 crc) = drop_bit w crc"
    using w by (simp add: drop_bit_drop_bit)
  also have "\<dots> = 0" by (rule in_bits_drop_all [OF c])
  finally show ?thesis
    by (simp add: step_unmasked [OF ok c] drop_bit_xor del: drop_bit_drop_bit)
qed

lemma xor_cancel_left: "(a :: int) XOR x = a XOR y \<Longrightarrow> x = y"
  by (metis bit.xor_left_self)

lemma xor_cancel_right: "(x :: int) XOR a = y XOR a \<Longrightarrow> x = y"
  by (metis bit.xor_left_self xor.commute)

lemma take_bit_8_uint: "take_bit 8 (uint (b :: byte)) = uint b"
  by (simp add: take_bit_int_eq_self_iff uint_lt2p [of b, simplified])

lemma tbl_idx_alt: "int (tbl_idx crc b) = take_bit 8 crc XOR uint b"
  by (simp add: tbl_idx_def and_255 take_bit_8_uint)

lemma tbl_idx_eq_iff: "tbl_idx c1 b = tbl_idx c2 b \<longleftrightarrow> take_bit 8 c1 = take_bit 8 c2"
proof
  assume "tbl_idx c1 b = tbl_idx c2 b"
  then have "int (tbl_idx c1 b) = int (tbl_idx c2 b)" by simp
  then show "take_bit 8 c1 = take_bit 8 c2"
    unfolding tbl_idx_alt by (rule xor_cancel_right)
next
  assume "take_bit 8 c1 = take_bit 8 c2"
  then have "int (tbl_idx c1 b) = int (tbl_idx c2 b)"
    unfolding tbl_idx_alt by simp
  then show "tbl_idx c1 b = tbl_idx c2 b" by simp
qed

lemma tbl_idx_byte_inj: "tbl_idx c b1 = tbl_idx c b2 \<Longrightarrow> b1 = b2"
proof -
  assume "tbl_idx c b1 = tbl_idx c b2"
  then have "int (tbl_idx c b1) = int (tbl_idx c b2)" by simp
  then have "uint b1 = uint b2"
    unfolding tbl_idx_alt by (rule xor_cancel_left)
  then show "b1 = b2" by (simp only: word_uint_eq_iff)
qed

lemma step_inj_state:
  assumes ok: "crc_table_ok table w" and c1: "in_bits w c1" and c2: "in_bits w c2"
    and eq: "spec_crc_step table w c1 b = spec_crc_step table w c2 b"
  shows "c1 = c2"
proof -
  have "drop_bit (w - 8) (table ! tbl_idx c1 b) = drop_bit (w - 8) (table ! tbl_idx c2 b)"
    using eq step_high [OF ok c1, of b] step_high [OF ok c2, of b] by simp
  then have idx: "tbl_idx c1 b = tbl_idx c2 b"
    by (rule table_high_inj [OF ok tbl_idx_less tbl_idx_less])
  then have lo: "take_bit 8 c1 = take_bit 8 c2"
    by (simp add: tbl_idx_eq_iff)
  have "table ! tbl_idx c1 b XOR drop_bit 8 c1 = table ! tbl_idx c1 b XOR drop_bit 8 c2"
    using eq idx by (simp add: step_unmasked [OF ok c1] step_unmasked [OF ok c2])
  then have hi: "drop_bit 8 c1 = drop_bit 8 c2"
    by (rule xor_cancel_left)
  have "c1 = push_bit 8 (drop_bit 8 c1) + take_bit 8 c1"
    by (simp only: bits_ident)
  also have "\<dots> = push_bit 8 (drop_bit 8 c2) + take_bit 8 c2"
    by (simp only: lo hi)
  also have "\<dots> = c2"
    by (simp only: bits_ident)
  finally show ?thesis .
qed

lemma step_inj_byte:
  assumes ok: "crc_table_ok table w" and c: "in_bits w crc" and ne: "b1 \<noteq> b2"
  shows "spec_crc_step table w crc b1 \<noteq> spec_crc_step table w crc b2"
proof
  assume "spec_crc_step table w crc b1 = spec_crc_step table w crc b2"
  then have "table ! tbl_idx crc b1 XOR drop_bit 8 crc = table ! tbl_idx crc b2 XOR drop_bit 8 crc"
    by (simp add: step_unmasked [OF ok c])
  then have "table ! tbl_idx crc b1 = table ! tbl_idx crc b2"
    by (rule xor_cancel_right)
  then have "tbl_idx crc b1 = tbl_idx crc b2"
    by (rule table_inj [OF ok tbl_idx_less tbl_idx_less])
  then show False using ne tbl_idx_byte_inj by blast
qed

lemma spec_crc_in_bits:
  "in_bits w seed \<Longrightarrow> in_bits w (spec_crc table w seed bs)"
  unfolding spec_crc_def
  by (induction bs arbitrary: seed) (simp_all add: spec_crc_step_in_bits)

lemma spec_crc_inj_seed:
  assumes ok: "crc_table_ok table w"
  shows "in_bits w c1 \<Longrightarrow> in_bits w c2 \<Longrightarrow> c1 \<noteq> c2 \<Longrightarrow>
         spec_crc table w c1 bs \<noteq> spec_crc table w c2 bs"
  unfolding spec_crc_def
proof (induction bs arbitrary: c1 c2)
  case Nil
  then show ?case by simp
next
  case (Cons b bs)
  have "spec_crc_step table w c1 b \<noteq> spec_crc_step table w c2 b"
    using step_inj_state [OF ok Cons.prems(1) Cons.prems(2)] Cons.prems(3) by blast
  then show ?case
    using Cons.IH [OF spec_crc_step_in_bits spec_crc_step_in_bits] by simp
qed

lemma spec_crc_tamper:
  assumes ok: "crc_table_ok table w" and seed: "in_bits w seed"
    and i: "i < length bs" and ne: "b \<noteq> bs ! i"
  shows "spec_crc table w seed (bs[i := b]) \<noteq> spec_crc table w seed bs"
proof -
  let ?c = "spec_crc table w seed (take i bs)"
  have c: "in_bits w ?c" by (rule spec_crc_in_bits [OF seed])
  have bs: "bs = take i bs @ bs ! i # drop (Suc i) bs"
    using i by (simp add: id_take_nth_drop)
  have upd: "bs[i := b] = take i bs @ b # drop (Suc i) bs"
    using i by (simp add: upd_conv_take_nth_drop)
  have 1: "spec_crc table w seed (bs[i := b]) =
           spec_crc table w (spec_crc_step table w ?c b) (drop (Suc i) bs)"
    unfolding upd by (simp add: spec_crc_def)
  have "spec_crc table w seed (take i bs @ bs ! i # drop (Suc i) bs) =
           spec_crc table w (spec_crc_step table w ?c (bs ! i)) (drop (Suc i) bs)"
    by (simp add: spec_crc_def)
  then have 2: "spec_crc table w seed bs =
           spec_crc table w (spec_crc_step table w ?c (bs ! i)) (drop (Suc i) bs)"
    using bs by simp
  have "spec_crc_step table w ?c b \<noteq> spec_crc_step table w ?c (bs ! i)"
    by (rule step_inj_byte [OF ok c ne])
  then show ?thesis
    unfolding 1 2
    by (rule spec_crc_inj_seed [OF ok spec_crc_step_in_bits spec_crc_step_in_bits])
qed

lemma crc16_table_ok: "crc_table_ok DJI_CRC16_TABLE 16"
  using DJI_CRC16_TABLE_length DJI_CRC16_TABLE_range DJI_CRC16_TABLE_high
  by (simp add: crc_table_ok_def in_bits_def [abs_def])

lemma crc32_table_ok: "crc_table_ok DJI_CRC32_TABLE 32"
  using DJI_CRC32_TABLE_length DJI_CRC32_TABLE_range DJI_CRC32_TABLE_high
  by (simp add: crc_table_ok_def in_bits_def [abs_def])

lemma ccrc16_spec: "ccrc16 bs init = spec_crc DJI_CRC16_TABLE 16 init bs"
  by (simp add: ccrc16_def spec_crc_def ccrc16_loop_spec)

lemma ccrc32_spec: "ccrc32 bs init = spec_crc DJI_CRC32_TABLE 32 init bs"
  by (simp add: ccrc32_def spec_crc_def ccrc32_loop_spec)

lemma ccrc16_tamper:
  "i < length bs \<Longrightarrow> b \<noteq> bs ! i \<Longrightarrow> ccrc16 (bs[i := b]) ccrc16_init \<noteq> ccrc16 bs ccrc16_init"
  unfolding ccrc16_spec
  by (rule spec_crc_tamper [OF crc16_table_ok]) (simp_all add: in_bits_def ccrc16_init_def)

lemma ccrc32_tamper:
  "i < length bs \<Longrightarrow> b \<noteq> bs ! i \<Longrightarrow> ccrc32 (bs[i := b]) ccrc32_init \<noteq> ccrc32 bs ccrc32_init"
  unfolding ccrc32_spec
  by (rule spec_crc_tamper [OF crc32_table_ok]) (simp_all add: in_bits_def ccrc32_init_def)

lemma ccrc16_range: "0 \<le> ccrc16 bs ccrc16_init \<and> ccrc16 bs ccrc16_init < 2 ^ 16"
  using spec_crc_in_bits [of 16 ccrc16_init DJI_CRC16_TABLE bs]
  by (simp add: ccrc16_spec in_bits_def ccrc16_init_def)

lemma ccrc32_range: "0 \<le> ccrc32 bs ccrc32_init \<and> ccrc32 bs ccrc32_init < 2 ^ 32"
  using spec_crc_in_bits [of 32 ccrc32_init DJI_CRC32_TABLE bs]
  by (simp add: ccrc32_spec in_bits_def ccrc32_init_def)

section \<open>Claims about the checksum engine\<close>

text \<open>
  Claim C5. \<^verbatim>\<open>_ccrc16\<close> and \<^verbatim>\<open>_ccrc32\<close> are pure table-driven functions: on every byte
  sequence and seed they compute the fold of the step
  \<open>crc = table[(crc ^ byte) & 0xFF] ^ (crc >> 8)\<close>, kept to 16 and to 32 bits, over the
  input; both tables have 256 entries; the default seed is \<open>0x3AA3\<close> for both; the
  checksum of the empty sequence is the seed, and with the default seed every checksum
  fits its width.
\<close>

theorem C5_checksums_are_table_driven_folds:
  "ccrc16 bs init = spec_crc DJI_CRC16_TABLE 16 init bs \<and>
   ccrc32 bs init = spec_crc DJI_CRC32_TABLE 32 init bs \<and>
   length DJI_CRC16_TABLE = 256 \<and> length DJI_CRC32_TABLE = 256 \<and>
   ccrc16_init = 0x3AA3 \<and> ccrc32_init = 0x3AA3 \<and>
   ccrc16 [] init = init \<and> ccrc32 [] init = init \<and>
   ccrc16 [] ccrc16_init = 0x3AA3 \<and> ccrc32 [] ccrc32_init = 0x3AA3 \<and>
   in_bits 16 (ccrc16 bs ccrc16_init) \<and> in_bits 32 (ccrc32 bs ccrc32_init)"
proof -
  have "in_bits 16 (ccrc16 bs ccrc16_init)" "in_bits 32 (ccrc32 bs ccrc32_init)"
    using ccrc16_range [of bs] ccrc32_range [of bs] by (simp_all add: in_bits_def)
  moreover have "ccrc16 [] x = x" "ccrc32 [] x = x" for x
    by (simp_all add: ccrc16_def ccrc32_def)
  moreover have "ccrc16 bs init = spec_crc DJI_CRC16_TABLE 16 init bs"
    by (rule ccrc16_spec)
  moreover have "ccrc32 bs init = spec_crc DJI_CRC32_TABLE 32 init bs"
    by (rule ccrc32_spec)
  ultimately show ?thesis
    by (simp add: DJI_CRC16_TABLE_length DJI_CRC32_TABLE_length
        ccrc16_init_def ccrc32_init_def)
qed

section \<open>Frame codec: properties\<close>

lemma and_3ff: "(x :: int) AND 0x3FF = take_bit 10 x"
  by (simp add: take_bit_eq_mask mask_eq_exp_minus_1)

lemma and_3ff_range: "0 \<le> (x :: int) AND 0x3FF \<and> x AND 0x3FF < 1024"
  unfolding and_3ff using take_bit_int_less_exp [of 10 x] by simp

lemma and_1f: "(x :: int) AND 0x1F = take_bit 5 x"
  by (simp add: take_bit_eq_mask mask_eq_exp_minus_1)

lemma cmd_type_range:
  "0 \<le> (0 :: int) OR (ack AND 0x1F)" "(0 OR (ack AND 0x1F)) < 256"
  "0 \<le> ((0 :: int) OR (ack AND 0x1F)) OR 0x20" "((0 OR (ack AND 0x1F)) OR 0x20) < 256"
proof -
  have a: "0 \<le> take_bit 5 ack" "take_bit 5 ack < 2 ^ 8"
    using take_bit_int_less_exp [of 5 ack] by simp_all
  show "0 \<le> (0 :: int) OR (ack AND 0x1F)" "(0 OR (ack AND 0x1F)) < 256"
    using a by (simp_all add: and_1f)
  show "0 \<le> ((0 :: int) OR (ack AND 0x1F)) OR 0x20"
    using a by (simp add: and_1f)
  have "take_bit 5 ack OR 0x20 < 2 ^ 8"
    by (rule OR_upper [OF a(1) a(2)]) simp
  then show "((0 OR (ack AND 0x1F)) OR 0x20) < 256"
    by (simp add: and_1f)
qed

lemma length_le_bytes [simp]: "length (le_bytes n v) = n"
  by (induction n arbitrary: v) simp_all

lemma uint_byte_of_int: "uint (word_of_int v :: byte) = v mod 256"
  by (simp add: uint_word_of_int_eq take_bit_eq_mod)

lemma from_bytes_le_bytes:
  "0 \<le> v \<Longrightarrow> v < 2 ^ (8 * n) \<Longrightarrow> from_bytes_le (le_bytes n v) = v"
proof (induction n arbitrary: v)
  case 0
  then show ?case by simp
next
  case (Suc n)
  have "v < 256 * 2 ^ (8 * n)" using Suc.prems(2) by (simp add: power_add)
  then have "v div 256 < 2 ^ (8 * n)" by simp
  moreover have "0 \<le> v div 256" using Suc.prems(1) by simp
  ultimately have "from_bytes_le (le_bytes n (v div 256)) = v div 256"
    by (rule Suc.IH [rotated])
  then show ?case
    by (simp add: uint_byte_of_int drop_bit_eq_div)
qed

lemma uint_byte_bounds: "0 \<le> uint (b :: byte)" "uint (b :: byte) < 256"
  using uint_lt2p [of b] by simp_all

lemma from_bytes_le_inj:
  "length xs = length ys \<Longrightarrow> from_bytes_le xs = from_bytes_le ys \<Longrightarrow> xs = ys"
proof (induction xs ys rule: list_induct2)
  case Nil
  then show ?case by simp
next
  case (Cons x xs y ys)
  have eq: "uint x + 256 * from_bytes_le xs = uint y + 256 * from_bytes_le ys"
    using Cons.prems by simp
  have "(uint x + 256 * from_bytes_le xs) mod 256 = uint x"
       "(uint y + 256 * from_bytes_le ys) mod 256 = uint y"
    using uint_byte_bounds [of x] uint_byte_bounds [of y] by simp_all
  then have x: "uint x = uint y" using eq by simp
  then have "from_bytes_le xs = from_bytes_le ys" using eq by simp
  then show ?case using Cons.IH x by (simp add: word_uint_eq_iff)
qed

lemma from_bytes_le_update:
  "i < length xs \<Longrightarrow> b \<noteq> xs ! i \<Longrightarrow> from_bytes_le (xs[i := b]) \<noteq> from_bytes_le xs"
  using from_bytes_le_inj [of "xs[i := b]" xs]
  by (metis length_list_update nth_list_update_eq)

lemma le_bytes_2: "le_bytes 2 v = [word_of_int v, word_of_int (drop_bit 8 v)]"
  by (simp add: numeral_2_eq_2)

lemma cmd_type_of_range: "0 \<le> cmd_type_of r ack \<and> cmd_type_of r ack < 256"
  using cmd_type_range [of ack] by (simp add: cmd_type_of_def)

lemma build_dji_frame_layout:
  assumes cs: "0 \<le> cmd_set" "cmd_set < 256" and ci: "0 \<le> cmd_id" "cmd_id < 256"
  shows "build_dji_frame cmd_set cmd_id payload is_response ack_type =
         Inr (assemble (frame_header (int (length payload) + 18 AND 0x3FF)
                          (cmd_type_of is_response ack_type))
                (word_of_int cmd_set # word_of_int cmd_id # payload))"
proof -
  have a: "py_bytes [cmd_set, cmd_id] = Inr [word_of_int cmd_set, word_of_int cmd_id]"
    using cs ci by (simp add: py_bytes_def)
  have b: "to_bytes_le 2 (x AND 0x3FF) = Inr (le_bytes 2 (x AND 0x3FF))" for x :: int
    using and_3ff_range [of x] by (simp add: to_bytes_le_def)
  have c: "py_bytes [0xAA, uint (bs ! 0), uint (bs ! 1), cmd_type_of is_response ack_type,
                     0x00, 0x00, 0x00, 0x00, 0x01, 0x00]
           = Inr [0xAA, bs ! 0, bs ! 1, word_of_int (cmd_type_of is_response ack_type),
                  0x00, 0x00, 0x00, 0x00, 0x01, 0x00]" for bs :: "byte list"
    using cmd_type_of_range [of is_response ack_type] uint_byte_bounds
    by (simp add: py_bytes_def)
  have d: "to_bytes_le 2 (ccrc16 bs ccrc16_init) = Inr (le_bytes 2 (ccrc16 bs ccrc16_init))" for bs
    using ccrc16_range [of bs] by (simp add: to_bytes_le_def)
  have e: "to_bytes_le 4 (ccrc32 bs ccrc32_init) = Inr (le_bytes 4 (ccrc32 bs ccrc32_init))" for bs
    using ccrc32_range [of bs] by (simp add: to_bytes_le_def)
  have ct: "(if is_response then (0 OR (ack_type AND 0x1F)) OR 0x20 else 0 OR (ack_type AND 0x1F))
            = cmd_type_of is_response ack_type"
    by (simp add: cmd_type_of_def)
  have len: "12 + int (length ([word_of_int cmd_set, word_of_int cmd_id :: byte] @ payload)) + 4
             = int (length payload) + 18"
    by simp
  have vl: "push_bit 10 0 OR (x AND 0x03FF) = x AND 0x3FF" for x :: int
    by simp
  show ?thesis
    unfolding build_dji_frame_def a thn_def sum.case Let_def len vl ct b c d e assemble_def
      frame_header_def
    by (simp add: le_bytes_2)
qed

lemma parse_dji_frame_parts:
  assumes l: "length hdr = 10" "length c16 = 2" "length c32 = 4"
  shows "parse_dji_frame (hdr @ c16 @ dat @ c32) =
     (if uint (hdr ! 0) \<noteq> 0xAA then Inl BadSof
      else if int (length dat) + 16 \<noteq> from_bytes_le (py_slice hdr 1 3) AND 0x3FF
        then Inl LengthMismatch
      else if ccrc16 hdr ccrc16_init \<noteq> from_bytes_le c16 then Inl Crc16Mismatch
      else if ccrc32 (hdr @ c16 @ dat) ccrc32_init \<noteq> from_bytes_le c32 then Inl Crc32Mismatch
      else if length dat < 2 then Inl PayloadTooShort
      else Inr \<lparr> f_version = drop_bit 10 (from_bytes_le (py_slice hdr 1 3)) AND 0x3F,
                 f_length = int (length dat) + 16,
                 f_frame_type = drop_bit 5 (uint (hdr ! 3)) AND 0x01,
                 f_ack_type = uint (hdr ! 3) AND 0x1F,
                 f_enc = uint (hdr ! 4),
                 f_seq = from_bytes_le (py_slice hdr 8 10),
                 f_crc16 = from_bytes_le c16,
                 f_crc32 = from_bytes_le c32,
                 f_cmd_set = uint (dat ! 0),
                 f_cmd_id = uint (dat ! 1),
                 f_data = drop 2 dat \<rparr>)"
proof (cases "int (length dat) + 16 = from_bytes_le (py_slice hdr 1 3) AND 0x3FF")
  case False
  then show ?thesis
    using l by (simp add: parse_dji_frame_def py_slice_def Let_def nth_append)
next
  case True
  have e: "nat (int (length dat) + 16 - 4) = length dat + 12" by simp
  show ?thesis
    using l unfolding parse_dji_frame_def
    by (simp add: py_slice_def Let_def nth_append True [symmetric] e)
qed

lemma from_bytes_le_2: "0 \<le> v \<Longrightarrow> v < 65536 \<Longrightarrow> from_bytes_le (le_bytes 2 v) = v"
  using from_bytes_le_bytes [of v 2] by simp

lemma from_bytes_le_4: "0 \<le> v \<Longrightarrow> v < 4294967296 \<Longrightarrow> from_bytes_le (le_bytes 4 v) = v"
  using from_bytes_le_bytes [of v 4] by simp

lemma from_bytes_ccrc16 [simp]:
  "from_bytes_le (le_bytes 2 (ccrc16 bs ccrc16_init)) = ccrc16 bs ccrc16_init"
  using ccrc16_range [of bs] by (simp add: from_bytes_le_2)

lemma from_bytes_ccrc32 [simp]:
  "from_bytes_le (le_bytes 4 (ccrc32 bs ccrc32_init)) = ccrc32 bs ccrc32_init"
  using ccrc32_range [of bs] by (simp add: from_bytes_le_4)

lemma frame_header_length [simp]: "length (frame_header len ct) = 10"
  by (simp add: frame_header_def)

lemma frame_header_ver_length:
  "0 \<le> len \<Longrightarrow> len < 1024 \<Longrightarrow> from_bytes_le (py_slice (frame_header len ct) 1 3) = len"
  using from_bytes_le_2 [of len] by (simp add: frame_header_def py_slice_def le_bytes_2)

lemma frame_type_bit:
  "drop_bit 5 (cmd_type_of is_response ack_type) AND 0x01 = (if is_response then 1 else 0)"
proof -
  have a: "drop_bit 5 (take_bit 5 ack_type) = 0"
    by (simp add: drop_bit_take_bit)
  have b: "drop_bit 5 (32 :: int) = 1"
    by (simp add: drop_bit_eq_div)
  show ?thesis
    by (simp add: cmd_type_of_def and_1f a b drop_bit_or del: drop_bit_take_bit)
qed

lemma parse_assemble:
  assumes len: "len = int (length dat) + 16" "len < 1024" and ct: "0 \<le> ct" "ct < 256"
    and dat: "2 \<le> length dat"
  shows "parse_dji_frame (assemble (frame_header len ct) dat) =
         Inr \<lparr> f_version = 0,
               f_length = len,
               f_frame_type = drop_bit 5 ct AND 0x01,
               f_ack_type = ct AND 0x1F,
               f_enc = 0,
               f_seq = 1,
               f_crc16 = ccrc16 (frame_header len ct) ccrc16_init,
               f_crc32 = ccrc32 (frame_header len ct @
                                 le_bytes 2 (ccrc16 (frame_header len ct) ccrc16_init) @ dat)
                           ccrc32_init,
               f_cmd_set = uint (dat ! 0),
               f_cmd_id = uint (dat ! 1),
               f_data = drop 2 dat \<rparr>"
proof -
  have l0: "0 \<le> len" using len by simp
  have vl: "from_bytes_le (py_slice (frame_header len ct) 1 3) = len"
    by (rule frame_header_ver_length [OF l0 len(2)])
  have vl': "from_bytes_le (py_slice (frame_header len ct) (Suc 0) 3) = len"
    using vl by simp
  have a: "len AND 0x3FF = len"
    using l0 len(2) by (simp add: and_3ff take_bit_int_eq_self_iff)
  have v: "drop_bit 10 len = 0"
    using l0 len(2) by (simp add: drop_bit_eq_div)
  have h: "frame_header len ct ! 0 = 0xAA" "frame_header len ct ! 3 = word_of_int ct"
    "frame_header len ct ! 4 = 0" "py_slice (frame_header len ct) 8 10 = [1, 0]"
    by (simp_all add: frame_header_def py_slice_def)
  have u: "uint (word_of_int ct :: byte) = ct"
    using ct by (simp add: uint_byte_of_int)
  show ?thesis
    unfolding assemble_def Let_def
    using dat
    by (subst parse_dji_frame_parts) (simp_all add: vl vl' a v h u len(1) [symmetric])
qed

lemma build_parse_round_trip:
  assumes cs: "0 \<le> cmd_set" "cmd_set < 256" and ci: "0 \<le> cmd_id" "cmd_id < 256"
    and len: "length payload + 18 < 1024"
    and b: "build_dji_frame cmd_set cmd_id payload is_response ack_type = Inr bs"
  shows "\<exists>f. parse_dji_frame bs = Inr f \<and> f_cmd_set f = cmd_set \<and> f_cmd_id f = cmd_id \<and>
             f_data f = payload \<and> f_frame_type f = (if is_response then 1 else 0) \<and>
             f_ack_type f = ack_type AND 0x1F \<and> f_length f = int (length bs)"
proof -
  let ?len = "int (length payload) + 18"
  let ?dat = "word_of_int cmd_set # word_of_int cmd_id # payload :: byte list"
  have a: "?len AND 0x3FF = ?len"
    using len by (simp add: and_3ff take_bit_int_eq_self_iff)
  have bs: "bs = assemble (frame_header ?len (cmd_type_of is_response ack_type)) ?dat"
    using b unfolding build_dji_frame_layout [OF cs ci] a by simp
  have p: "parse_dji_frame bs = Inr \<lparr> f_version = 0,
               f_length = ?len,
               f_frame_type = drop_bit 5 (cmd_type_of is_response ack_type) AND 0x01,
               f_ack_type = cmd_type_of is_response ack_type AND 0x1F,
               f_enc = 0,
               f_seq = 1,
               f_crc16 = ccrc16 (frame_header ?len (cmd_type_of is_response ack_type)) ccrc16_init,
               f_crc32 = ccrc32 (frame_header ?len (cmd_type_of is_response ack_type) @
                                 le_bytes 2 (ccrc16 (frame_header ?len (cmd_type_of is_response ack_type)) ccrc16_init) @ ?dat)
                           ccrc32_init,
               f_cmd_set = uint (?dat ! 0),
               f_cmd_id = uint (?dat ! 1),
               f_data = drop 2 ?dat \<rparr>"
    unfolding bs using len cmd_type_of_range [of is_response ack_type]
    by (intro parse_assemble) simp_all
  have ack: "cmd_type_of is_response ack_type AND 0x1F = ack_type AND 0x1F"
  proof -
    have "take_bit 5 (32 :: int) = 0" by (simp add: take_bit_eq_mod)
    then show ?thesis by (simp add: cmd_type_of_def and_1f)
  qed
  have l: "int (length bs) = ?len"
    unfolding bs by (simp add: assemble_def Let_def)
  show ?thesis
    unfolding p using cs ci
    by (simp add: frame_type_bit uint_byte_of_int ack l)
qed

text \<open>
  Beyond the ten-bit length field the encoder still emits a frame, with the length
  truncated, and the decoder rejects it: the round trip needs \<open>18 + len(payload) \<le> 1023\<close>.
\<close>

lemma build_parse_oversize:
  assumes cs: "0 \<le> cmd_set" "cmd_set < 256" and ci: "0 \<le> cmd_id" "cmd_id < 256"
    and len: "1024 \<le> length payload + 18"
  shows "\<exists>bs. build_dji_frame cmd_set cmd_id payload is_response ack_type = Inr bs \<and>
              parse_dji_frame bs = Inl LengthMismatch"
proof -
  let ?l = "(int (length payload) + 18) AND 0x3FF"
  let ?hdr = "frame_header ?l (cmd_type_of is_response ack_type)"
  let ?dat = "word_of_int cmd_set # word_of_int cmd_id # payload :: byte list"
  have r: "0 \<le> ?l" "?l < 1024" using and_3ff_range [of "int (length payload) + 18"] by simp_all
  have vl: "from_bytes_le (py_slice ?hdr 1 3) = ?l"
    by (rule frame_header_ver_length [OF r])
  have a: "?l AND 0x3FF = ?l"
    by (simp add: and_3ff)
  have "1024 \<le> int (length ?dat) + 16" using len by simp
  then have ne: "int (length ?dat) + 16 \<noteq> ?l" using r(2) by linarith
  have h: "?hdr ! 0 = 0xAA" by (simp add: frame_header_def)
  have "parse_dji_frame (assemble ?hdr ?dat) = Inl LengthMismatch"
    unfolding assemble_def Let_def
    using ne
    by (subst parse_dji_frame_parts) (simp_all only: vl a h frame_header_length length_le_bytes, simp_all)
  then show ?thesis
    using build_dji_frame_layout [OF cs ci, of payload is_response ack_type] by simp
qed

text \<open>A frame that parses, split into its four parts, and one byte of it replaced.\<close>

lemma tamper_parts:
  assumes l: "length hdr = 10" "length c16 = 2" "length c32 = 4"
    and sof: "hdr ! 0 = 0xAA"
    and len: "from_bytes_le (py_slice hdr 1 3) = int (length dat) + 16" "length dat + 16 < 1024"
    and c16: "from_bytes_le c16 = ccrc16 hdr ccrc16_init"
    and c32: "from_bytes_le c32 = ccrc32 (hdr @ c16 @ dat) ccrc32_init"
    and i: "i < length (hdr @ c16 @ dat @ c32)" and b: "b \<noteq> (hdr @ c16 @ dat @ c32) ! i"
  shows "parse_dji_frame ((hdr @ c16 @ dat @ c32)[i := b]) =
         Inl (if i = 0 then BadSof
              else if i < 3 \<and> int (length dat) + 16 \<noteq>
                        from_bytes_le (py_slice (hdr[i := b]) 1 3) AND 0x3FF then LengthMismatch
              else if i < 12 then Crc16Mismatch
              else Crc32Mismatch)"
proof -
  let ?F = "hdr @ c16 @ dat @ c32"
  have a: "(int (length dat) + 16) AND 0x3FF = int (length dat) + 16"
    using len(2) by (simp add: and_3ff take_bit_int_eq_self_iff)
  consider (h) "i < 10" | (c) "10 \<le> i" "i < 12" | (d) "12 \<le> i" "i < 12 + length dat"
    | (e) "12 + length dat \<le> i"
    by linarith
  then show ?thesis
  proof cases
    case h
    have F': "?F[i := b] = hdr[i := b] @ c16 @ dat @ c32"
      using h l by (simp add: list_update_append)
    have bi: "b \<noteq> hdr ! i" using b h l by (simp add: nth_append)
    have crc: "ccrc16 (hdr[i := b]) ccrc16_init \<noteq> from_bytes_le c16"
      unfolding c16 using h l bi by (intro ccrc16_tamper) simp_all
    show ?thesis
    proof (cases "i = 0")
      case True
      have "uint b \<noteq> uint (0xAA :: byte)"
        using bi sof True by (simp only: word_uint_eq_iff [symmetric]) simp
      then have "uint ((hdr[i := b]) ! 0) \<noteq> 0xAA"
        using True l by simp
      then show ?thesis
        unfolding F' using l True by (subst parse_dji_frame_parts) simp_all
    next
      case False
      then have s: "uint ((hdr[i := b]) ! 0) = 0xAA"
        using sof l by simp
      have same: "3 \<le> i \<Longrightarrow> py_slice (hdr[i := b]) 1 3 = py_slice hdr 1 3"
        by (simp add: py_slice_def drop_update_swap take_update_cancel)
      show ?thesis
        unfolding F' using l False s crc h same len(1) a
        by (subst parse_dji_frame_parts) (auto simp: not_less)
    qed
  next
    case c
    have j: "i - 10 < 2" "\<not> i < 10" using c by simp_all
    have F': "?F[i := b] = hdr @ c16[i - 10 := b] @ dat @ c32"
      using j l by (simp add: list_update_append)
    have bi: "b \<noteq> c16 ! (i - 10)" using b j l by (simp add: nth_append)
    have crc: "ccrc16 hdr ccrc16_init \<noteq> from_bytes_le (c16[i - 10 := b])"
      unfolding c16 [symmetric] using from_bytes_le_update [of "i - 10" c16 b] j l bi by simp
    show ?thesis
      unfolding F' using l c crc sof len(1) a
      by (subst parse_dji_frame_parts) simp_all
  next
    case d
    have j: "i - 12 < length dat" "\<not> i < 10" "\<not> i - 10 < 2" "i - 10 - 2 = i - 12"
      using d by simp_all
    have F': "?F[i := b] = hdr @ c16 @ dat[i - 12 := b] @ c32"
      using j l by (simp add: list_update_append)
    have bi: "b \<noteq> (hdr @ c16 @ dat) ! i" using b j l by (simp add: nth_append)
    have il: "i < length (hdr @ c16 @ dat)" using d l by simp
    have "ccrc32 ((hdr @ c16 @ dat)[i := b]) ccrc32_init \<noteq> ccrc32 (hdr @ c16 @ dat) ccrc32_init"
      by (rule ccrc32_tamper [OF il bi])
    moreover have "(hdr @ c16 @ dat)[i := b] = hdr @ c16 @ dat[i - 12 := b]"
      using j l by (simp add: list_update_append)
    ultimately have crc: "ccrc32 (hdr @ c16 @ dat[i - 12 := b]) ccrc32_init \<noteq> from_bytes_le c32"
      unfolding c32 by simp
    show ?thesis
      unfolding F' using l d crc sof len(1) a c16
      by (subst parse_dji_frame_parts) simp_all
  next
    case e
    let ?j = "i - (12 + length dat)"
    have k: "\<not> i < 10" "\<not> i - 10 < 2" "\<not> i - 10 - 2 < length dat"
      "i - 10 - 2 - length dat = ?j"
      using e by simp_all
    have F': "?F[i := b] = hdr @ c16 @ dat @ c32[?j := b]"
      using k l by (simp add: list_update_append)
    have j: "?j < length c32" using i e l by simp
    have bi: "b \<noteq> c32 ! ?j" using b k l by (simp add: nth_append)
    have crc: "ccrc32 (hdr @ c16 @ dat) ccrc32_init \<noteq> from_bytes_le (c32[?j := b])"
      unfolding c32 [symmetric] using from_bytes_le_update [OF j bi] by simp
    show ?thesis
      unfolding F' using l e crc sof len(1) a c16
      by (subst parse_dji_frame_parts) simp_all
  qed
qed

lemma build_dji_frame_Inr_range:
  assumes "build_dji_frame cmd_set cmd_id payload is_response ack_type = Inr bs"
  shows "0 \<le> cmd_set \<and> cmd_set < 256 \<and> 0 \<le> cmd_id \<and> cmd_id < 256"
proof -
  have "py_bytes [cmd_set, cmd_id] \<noteq> Inl BytesRangeError"
    using assms by (auto simp: build_dji_frame_def thn_def)
  then show ?thesis
    by (simp add: py_bytes_def split: if_splits)
qed

lemma tamper_length_low:
  assumes "b \<noteq> word_of_int len"
  shows "len \<noteq> from_bytes_le (py_slice ((frame_header len ct)[1 := b]) 1 3) AND 0x3FF"
proof
  let ?x = "from_bytes_le (py_slice ((frame_header len ct)[1 := b]) 1 3)"
  assume "len = ?x AND 0x3FF"
  then have "take_bit 8 len = take_bit 8 (take_bit 10 ?x)" by (simp add: and_3ff)
  also have "\<dots> = take_bit 8 ?x" by simp
  also have "\<dots> = uint b"
    using uint_byte_bounds [of b]
    by (simp add: frame_header_def py_slice_def take_bit_eq_mod)
  finally have "uint (word_of_int len :: byte) = uint b"
    by (simp add: uint_byte_of_int take_bit_eq_mod)
  then show False using assms by (simp only: word_uint_eq_iff [symmetric])
qed

lemma build_tamper:
  assumes bld: "build_dji_frame cmd_set cmd_id payload is_response ack_type = Inr bs"
    and len: "length payload + 18 < 1024"
    and i: "i < length bs" and b: "b \<noteq> bs ! i"
  shows "parse_dji_frame (bs[i := b]) =
         Inl (if i = 0 then BadSof
              else if i = 1 then LengthMismatch
              else if i = 2 \<and> int (length bs) \<noteq>
                        from_bytes_le (py_slice (take 10 (bs[i := b])) 1 3) AND 0x3FF then LengthMismatch
              else if i < 12 then Crc16Mismatch
              else Crc32Mismatch)"
proof -
  let ?len = "int (length payload) + 18"
  let ?ct = "cmd_type_of is_response ack_type"
  let ?hdr = "frame_header ?len ?ct"
  let ?c16 = "le_bytes 2 (ccrc16 ?hdr ccrc16_init)"
  let ?dat = "word_of_int cmd_set # word_of_int cmd_id # payload :: byte list"
  let ?c32 = "le_bytes 4 (ccrc32 (?hdr @ ?c16 @ ?dat) ccrc32_init)"
  note r = build_dji_frame_Inr_range [OF bld]
  have a: "?len AND 0x3FF = ?len"
    using len by (simp add: and_3ff take_bit_int_eq_self_iff)
  have "build_dji_frame cmd_set cmd_id payload is_response ack_type =
          Inr (assemble (frame_header (?len AND 0x3FF) ?ct) ?dat)"
    using r by (intro build_dji_frame_layout) simp_all
  then have bs: "bs = ?hdr @ ?c16 @ ?dat @ ?c32"
    using bld unfolding a by (simp add: assemble_def Let_def)
  have vl: "from_bytes_le (py_slice ?hdr 1 3) = int (length ?dat) + 16"
    using frame_header_ver_length [of ?len ?ct] len by simp
  have t: "parse_dji_frame ((?hdr @ ?c16 @ ?dat @ ?c32)[i := b]) =
         Inl (if i = 0 then BadSof
              else if i < 3 \<and> int (length ?dat) + 16 \<noteq>
                        from_bytes_le (py_slice (?hdr[i := b]) 1 3) AND 0x3FF then LengthMismatch
              else if i < 12 then Crc16Mismatch
              else Crc32Mismatch)"
    using len i b unfolding bs
    by (intro tamper_parts vl) (simp_all add: frame_header_def)
  have one: "i = 1 \<Longrightarrow> int (length ?dat) + 16 \<noteq>
                from_bytes_le (py_slice (?hdr[i := b]) 1 3) AND 0x3FF"
    using tamper_length_low [of b ?len ?ct] b unfolding bs
    by (simp add: frame_header_def)
  have tk: "i < 3 \<Longrightarrow> take 10 (bs[i := b]) = ?hdr[i := b]"
    unfolding bs by (simp add: list_update_append)
  have lb: "int (length bs) = int (length ?dat) + 16"
    unfolding bs by simp
  consider "i = 0" | "i = 1" | "i = 2" | "3 \<le> i" by linarith
  then show ?thesis
  proof cases
    case 1
    then show ?thesis using t unfolding bs [symmetric] by simp
  next
    case 2
    then show ?thesis using t one unfolding bs [symmetric] by simp
  next
    case 3
    then show ?thesis using t tk unfolding bs [symmetric] lb by simp
  next
    case 4
    then show ?thesis using t unfolding bs [symmetric] by simp
  qed
qed

section \<open>Claims about the frame codec\<close>

text \<open>
  Claim C1. For every valid tuple (cmdSet, cmdId, payload, isResponse, ackType), decoding
  the bytes produced by \<^verbatim>\<open>build_dji_frame\<close> yields a frame whose cmdSet, cmdId and
  payload are the inputs and whose frame type is Response (1) exactly when isResponse
  was set. A tuple is valid when the encoder can represent it: cmdSet and cmdId are
  bytes, and the frame (18 bytes around the payload) fits the ten-bit length field.
  The decoded ack type is the low five bits of the input, and the decoded length is the
  length of the buffer.
\<close>

theorem C1_decode_encode_round_trip:
  assumes "0 \<le> cmd_set" "cmd_set < 256" "0 \<le> cmd_id" "cmd_id < 256"
    and "length payload + 18 < 1024"
  shows "\<exists>bs f. build_dji_frame cmd_set cmd_id payload is_response ack_type = Inr bs \<and>
           parse_dji_frame bs = Inr f \<and>
           f_cmd_set f = cmd_set \<and> f_cmd_id f = cmd_id \<and> f_data f = payload \<and>
           f_frame_type f = (if is_response then 1 else 0) \<and>
           f_ack_type f = ack_type AND 0x1F \<and> f_length f = int (length bs)"
proof -
  obtain bs where b: "build_dji_frame cmd_set cmd_id payload is_response ack_type = Inr bs"
    using build_dji_frame_layout [OF assms(1-4)] by blast
  show ?thesis
    using build_parse_round_trip [OF assms b] b by blast
qed

theorem C1_round_trip_witness:
  "\<exists>bs f. build_dji_frame 0x1D 0x04 [1, 2, 3, 4, 5] True 1 = Inr bs \<and>
           parse_dji_frame bs = Inr f \<and>
           f_cmd_set f = 0x1D \<and> f_cmd_id f = 0x04 \<and> f_data f = [1, 2, 3, 4, 5] \<and>
           f_frame_type f = 1 \<and> f_ack_type f = 1 \<and> f_length f = int (length bs)"
  using C1_decode_encode_round_trip [of "0x1D" "0x04" "[1, 2, 3, 4, 5]" True 1]
  by simp

text \<open>
  Claim C2, as stated: replacing any single byte of an encoded frame makes
  \<^verbatim>\<open>parse_dji_frame\<close> fail with a CRC16 or CRC32 mismatch and with no other error. It
  fails at position 0: the start-of-frame check comes first, and the error is the one
  of "Invalid frame header (SOF)".
\<close>

theorem C2_counterexample_sof:
  "build_dji_frame 0x1D 0x04 [] False 1 = Inr frame_1D_04_empty \<and>
   frame_1D_04_empty ! 0 = 0xAA \<and>
   parse_dji_frame (frame_1D_04_empty[0 := 0x55]) = Inl BadSof \<and>
   parse_dji_frame (frame_1D_04_empty[0 := 0x55]) \<noteq> Inl Crc16Mismatch \<and>
   parse_dji_frame (frame_1D_04_empty[0 := 0x55]) \<noteq> Inl Crc32Mismatch"
proof -
  have "build_dji_frame 0x1D 0x04 [] False 1 = Inr frame_1D_04_empty"
    unfolding frame_1D_04_empty_def by code_simp
  moreover have "parse_dji_frame (frame_1D_04_empty[0 := 0x55]) = Inl BadSof"
    unfolding frame_1D_04_empty_def by code_simp
  ultimately show ?thesis
    by (simp add: frame_1D_04_empty_def)
qed

text \<open>
  Claim C2, amended. For every frame \<^verbatim>\<open>build_dji_frame\<close> produces that fits the length
  field (at most 1023 bytes) and every position in it, replacing that byte by any other
  value makes \<^verbatim>\<open>parse_dji_frame\<close> fail; it never succeeds. The error is the SOF error
  at position 0, the length mismatch at position 1, at position 2 the length mismatch
  when the declared length changed and the CRC16 mismatch when only version bits did,
  the CRC16 mismatch at positions 3 to 11, and the CRC32 mismatch from position 12 on.
\<close>

theorem C2_tampered_frame_is_rejected:
  assumes "build_dji_frame cmd_set cmd_id payload is_response ack_type = Inr bs"
    and "length payload + 18 < 1024"
    and "i < length bs" and "b \<noteq> bs ! i"
  shows "parse_dji_frame (bs[i := b]) =
         Inl (if i = 0 then BadSof
              else if i = 1 then LengthMismatch
              else if i = 2 then
                (if declared_length (bs[i := b]) = int (length bs) then Crc16Mismatch
                 else LengthMismatch)
              else if i < 12 then Crc16Mismatch
              else Crc32Mismatch)"
proof -
  have "py_slice (take 10 (bs[i := b])) 1 3 = py_slice (bs[i := b]) 1 3"
    by (simp add: py_slice_def drop_take)
  then show ?thesis
    using build_tamper [OF assms] by (auto simp: declared_length_def)
qed

theorem C2_tampered_frame_witness:
  "build_dji_frame 0x1D 0x04 [1, 2, 3, 4, 5] False 1 = Inr frame_1D_04_12345 \<and>
   13 < length frame_1D_04_12345 \<and> 0xFB \<noteq> frame_1D_04_12345 ! 13 \<and>
   parse_dji_frame (frame_1D_04_12345[13 := 0xFB]) = Inl Crc32Mismatch"
proof -
  have b: "build_dji_frame 0x1D 0x04 [1, 2, 3, 4, 5] False 1 = Inr frame_1D_04_12345"
    unfolding frame_1D_04_12345_def by code_simp
  have l: "length [1, 2, 3, 4, 5 :: byte] + 18 < 1024" by simp
  have i: "13 < length frame_1D_04_12345" by (simp add: frame_1D_04_12345_def)
  have n: "0xFB \<noteq> frame_1D_04_12345 ! 13" by (simp add: frame_1D_04_12345_def)
  show ?thesis
    using C2_tampered_frame_is_rejected [OF b l i n] b i n by simp
qed

section \<open>Telemetry decoder: properties\<close>

lemma CameraMode_of_eq:
  "CameraMode_of v = Inr
     (if v = 0x38 then CameraMode_PANO_VIDEO else if v = 0x3A then CameraMode_HYPERLAPSE
      else if v = 0x3C then CameraMode_SELFIE else if v = 0x3F then CameraMode_PANO_PHOTO
      else if v = 0x41 then CameraMode_BOOST_VIDEO else if v = 0x43 then CameraMode_VORTEX
      else if v = 0x44 then CameraMode_PANO_SUPER_NIGHT
      else if v = 0x4A then CameraMode_SINGLE_LENS_SUPER_NIGHT else CameraMode_UNKNOWN)"
  by (simp add: CameraMode_of_def enum_call_def CameraMode_members_def CameraMode_missing_def)

lemma ViewStatus_of_eq:
  "ViewStatus_of v = Inr
     (if v = 0x00 then ViewStatus_SCREEN_OFF else if v = 0x01 then ViewStatus_LIVE_STREAMING
      else if v = 0x02 then ViewStatus_PLAYBACK else if v = 0x03 then ViewStatus_PHOTO_OR_RECORDING
      else if v = 0x05 then ViewStatus_PRE_RECORDING else ViewStatus_UNKNOWN)"
  by (simp add: ViewStatus_of_def enum_call_def ViewStatus_members_def ViewStatus_missing_def)

lemma VideoResolution_of_eq:
  "VideoResolution_of v = Inr
     (if v = 10 then VideoResolution_RES_1080P else if v = 16 then VideoResolution_RES_4K
      else if v = 45 then VideoResolution_RES_27K else if v = 66 then VideoResolution_RES_1080P_9_16
      else if v = 95 then VideoResolution_RES_27K_4_3 else if v = 103 then VideoResolution_RES_4K_4_3
      else if v = 109 then VideoResolution_RES_4K_9_16 else if v = 4 then VideoResolution_RES_UW_30MP
      else if v = 3 then VideoResolution_RES_W_20MP else if v = 2 then VideoResolution_RES_STD_12MP
      else VideoResolution_UNKNOWN)"
  by (simp add: VideoResolution_of_def enum_call_def VideoResolution_members_def
      VideoResolution_missing_def)

lemma FPSIdx_of_eq:
  "FPSIdx_of v = Inr
     (if v = 1 then FPSIdx_FPS_24 else if v = 2 then FPSIdx_FPS_25 else if v = 3 then FPSIdx_FPS_30
      else if v = 4 then FPSIdx_FPS_48 else if v = 5 then FPSIdx_FPS_50
      else if v = 6 then FPSIdx_FPS_60 else if v = 10 then FPSIdx_FPS_100
      else if v = 7 then FPSIdx_FPS_120 else if v = 19 then FPSIdx_FPS_200
      else if v = 8 then FPSIdx_FPS_240 else FPSIdx_UNKNOWN)"
  by (simp add: FPSIdx_of_def enum_call_def FPSIdx_members_def FPSIdx_missing_def)

lemma EISMode_of_eq:
  "EISMode_of v = Inr
     (if v = 0 then EISMode_OFF else if v = 1 then EISMode_RS else if v = 2 then EISMode_HS
      else if v = 3 then EISMode_RS_P else if v = 4 then EISMode_HB else EISMode_UNKNOWN)"
  by (simp add: EISMode_of_def enum_call_def EISMode_members_def EISMode_missing_def)

lemma PhotoRatio_of_eq:
  "PhotoRatio_of v = Inr
     (if v = 0 then PhotoRatio_RATIO_4_3 else if v = 1 then PhotoRatio_RATIO_16_9
      else PhotoRatio_UNKNOWN)"
  by (simp add: PhotoRatio_of_def enum_call_def PhotoRatio_members_def PhotoRatio_missing_def)

lemma UserMode_of_eq:
  "UserMode_of v = Inr
     (if v = 0 then UserMode_GENERAL else if v = 1 then UserMode_CUSTOM_1
      else if v = 2 then UserMode_CUSTOM_2 else if v = 3 then UserMode_CUSTOM_3
      else if v = 4 then UserMode_CUSTOM_4 else if v = 5 then UserMode_CUSTOM_5
      else UserMode_UNKNOWN)"
  by (simp add: UserMode_of_def enum_call_def UserMode_members_def UserMode_missing_def)

lemma PowerMode_of_eq:
  "PowerMode_of v = Inr
     (if v = 0 then PowerMode_NORMAL else if v = 3 then PowerMode_SLEEP else PowerMode_UNKNOWN)"
  by (simp add: PowerMode_of_def enum_call_def PowerMode_members_def PowerMode_missing_def)

lemma TempOver_of_eq:
  "TempOver_of v = Inr
     (if v = 0 then TempOver_NORMAL else if v = 1 then TempOver_WARNING
      else if v = 2 then TempOver_TOO_HIGH else if v = 3 then TempOver_OVERHEAT
      else TempOver_UNKNOWN)"
  by (simp add: TempOver_of_def enum_call_def TempOver_members_def TempOver_missing_def)

lemmas enum_of_eq = CameraMode_of_eq ViewStatus_of_eq VideoResolution_of_eq FPSIdx_of_eq
  EISMode_of_eq PhotoRatio_of_eq UserMode_of_eq PowerMode_of_eq TempOver_of_eq

lemma thn_Inr [simp]: "thn (Inr x) f = f x"
  by (simp add: thn_def)

lemma thn_Inl [simp]: "thn (Inl e) f = Inl e"
  by (simp add: thn_def)

lemma thn_eq_Inr_iff: "thn m f = Inr y \<longleftrightarrow> (\<exists>x. m = Inr x \<and> f x = Inr y)"
  by (cases m) simp_all

lemma byte_at_Inr_iff: "byte_at data i = Inr v \<longleftrightarrow> i < length data \<and> v = uint (data ! i)"
  by (auto simp: byte_at_def)

lemma parseFromData_Inr_length:
  assumes "parseFromData self data = Inr s"
  shows "38 \<le> length data"
proof -
  have "\<exists>v. byte_at data 37 = Inr v"
    using assms unfolding parseFromData_def thn_eq_Inr_iff by blast
  then show ?thesis by (simp add: byte_at_Inr_iff)
qed

lemma parseFromData_total:
  assumes "38 \<le> length data"
  shows "\<exists>s. parseFromData self data = Inr s \<and> status_data s = Some data \<and>
             camera_bat_percentage s = uint (data ! 37) \<and> fov_type s = fov_type self"
  using assms
  by (auto simp: parseFromData_def byte_at_def unpack_uint_def py_slice_def enum_of_eq)

lemma parseFromData_error_kind:
  assumes "parseFromData self data = Inl e"
  shows "e = IndexError \<or> e = StructError"
  using assms unfolding parseFromData_def enum_of_eq
  by (auto simp: thn_def byte_at_def unpack_uint_def split: if_splits sum.splits)

lemma parseFromData_short:
  assumes "length data < 38"
  shows "parseFromData self data = Inl IndexError \<or> parseFromData self data = Inl StructError"
proof (cases "parseFromData self data")
  case (Inl e)
  then show ?thesis using parseFromData_error_kind [OF Inl] by simp
next
  case (Inr s)
  then show ?thesis using parseFromData_Inr_length [OF Inr] assms by simp
qed

section \<open>Claims about the telemetry decoder\<close>

text \<open>
  Claim C6. For each of the nine enumerated fields of \<^verbatim>\<open>CameraStatus\<close> (camera mode, view
  status, video resolution, fps index, stabilization mode, photo ratio, user mode, power
  mode, thermal state) decoding a raw value never raises: a value of the field's known
  set gives the member declared with that value, and every other value gives the
  member \<^verbatim>\<open>UNKNOWN\<close>. This holds for every integer \<open>v\<close>, so for \<open>v = uint b\<close> of every
  byte \<open>b\<close>.
\<close>

theorem C6_enum_decoding_is_total:
  "CameraMode_of v = Inr
     (if v = 0x38 then CameraMode_PANO_VIDEO else if v = 0x3A then CameraMode_HYPERLAPSE
      else if v = 0x3C then CameraMode_SELFIE else if v = 0x3F then CameraMode_PANO_PHOTO
      else if v = 0x41 then CameraMode_BOOST_VIDEO else if v = 0x43 then CameraMode_VORTEX
      else if v = 0x44 then CameraMode_PANO_SUPER_NIGHT
      else if v = 0x4A then CameraMode_SINGLE_LENS_SUPER_NIGHT else CameraMode_UNKNOWN) \<and>
   ViewStatus_of v = Inr
     (if v = 0x00 then ViewStatus_SCREEN_OFF else if v = 0x01 then ViewStatus_LIVE_STREAMING
      else if v = 0x02 then ViewStatus_PLAYBACK else if v = 0x03 then ViewStatus_PHOTO_OR_RECORDING
      else if v = 0x05 then ViewStatus_PRE_RECORDING else ViewStatus_UNKNOWN) \<and>
   VideoResolution_of v = Inr
     (if v = 10 then VideoResolution_RES_1080P else if v = 16 then VideoResolution_RES_4K
      else if v = 45 then VideoResolution_RES_27K else if v = 66 then VideoResolution_RES_1080P_9_16
      else if v = 95 then VideoResolution_RES_27K_4_3 else if v = 103 then VideoResolution_RES_4K_4_3
      else if v = 109 then VideoResolution_RES_4K_9_16 else if v = 4 then VideoResolution_RES_UW_30MP
      else if v = 3 then VideoResolution_RES_W_20MP else if v = 2 then VideoResolution_RES_STD_12MP
      else VideoResolution_UNKNOWN) \<and>
   FPSIdx_of v = Inr
     (if v = 1 then FPSIdx_FPS_24 else if v = 2 then FPSIdx_FPS_25 else if v = 3 then FPSIdx_FPS_30
      else if v = 4 then FPSIdx_FPS_48 else if v = 5 then FPSIdx_FPS_50
      else if v = 6 then FPSIdx_FPS_60 else if v = 10 then FPSIdx_FPS_100
      else if v = 7 then FPSIdx_FPS_120 else if v = 19 then FPSIdx_FPS_200
      else if v = 8 then FPSIdx_FPS_240 else FPSIdx_UNKNOWN) \<and>
   EISMode_of v = Inr
     (if v = 0 then EISMode_OFF else if v = 1 then EISMode_RS else if v = 2 then EISMode_HS
      else if v = 3 then EISMode_RS_P else if v = 4 then EISMode_HB else EISMode_UNKNOWN) \<and>
   PhotoRatio_of v = Inr
     (if v = 0 then PhotoRatio_RATIO_4_3 else if v = 1 then PhotoRatio_RATIO_16_9
      else PhotoRatio_UNKNOWN) \<and>
   UserMode_of v = Inr
     (if v = 0 then UserMode_GENERAL else if v = 1 then UserMode_CUSTOM_1
      else if v = 2 then UserMode_CUSTOM_2 else if v = 3 then UserMode_CUSTOM_3
      else if v = 4 then UserMode_CUSTOM_4 else if v = 5 then UserMode_CUSTOM_5
      else UserMode_UNKNOWN) \<and>
   PowerMode_of v = Inr
     (if v = 0 then PowerMode_NORMAL else if v = 3 then PowerMode_SLEEP else PowerMode_UNKNOWN) \<and>
   TempOver_of v = Inr
     (if v = 0 then TempOver_NORMAL else if v = 1 then TempOver_WARNING
      else if v = 2 then TempOver_TOO_HIGH else if v = 3 then TempOver_OVERHEAT
      else TempOver_UNKNOWN)"
  by (intro conjI CameraMode_of_eq ViewStatus_of_eq VideoResolution_of_eq FPSIdx_of_eq
      EISMode_of_eq PhotoRatio_of_eq UserMode_of_eq PowerMode_of_eq TempOver_of_eq)

text \<open>
  Claim C10. \<^verbatim>\<open>CameraStatus.parseFromData\<close> completes without error on every byte
  sequence of at least 38 bytes (the highest offset it reads is 37) and raises on every
  shorter one (\<^verbatim>\<open>IndexError\<close> from an index, or \<^verbatim>\<open>struct.error\<close> from a short slice): 38
  bytes is the exact threshold.
\<close>

theorem C10_parseFromData_threshold_38:
  "(38 \<le> length data \<longrightarrow>
      (\<exists>s. parseFromData self data = Inr s \<and> status_data s = Some data \<and>
           camera_bat_percentage s = uint (data ! 37))) \<and>
   (length data < 38 \<longrightarrow>
      (parseFromData self data = Inl IndexError \<or> parseFromData self data = Inl StructError))"
  using parseFromData_total [of data self] parseFromData_short [of data self] by blast

theorem C10_parseFromData_threshold_witness:
  "(\<exists>s. parseFromData CameraStatus_init (replicate 38 0x38) = Inr s \<and>
        status_data s = Some (replicate 38 0x38) \<and> camera_bat_percentage s = 0x38) \<and>
   (parseFromData CameraStatus_init (replicate 37 0x38) = Inl IndexError \<or>
    parseFromData CameraStatus_init (replicate 37 0x38) = Inl StructError)"
  using C10_parseFromData_threshold_38 [of "replicate 38 0x38" CameraStatus_init]
    C10_parseFromData_threshold_38 [of "replicate 37 0x38" CameraStatus_init]
  by simp

section \<open>Controller: properties of the handler and of sending\<close>

lemma notification_handler_keeps [simp]:
  "client (notification_handler buf st) = client st"
  "device_id (notification_handler buf st) = device_id st"
  "cameraStatusCallbacks (notification_handler buf st) = cameraStatusCallbacks st"
  "local_mac (notification_handler buf st) = local_mac st"
  "written (notification_handler buf st) = written st"
  by (simp_all add: notification_handler_def Let_def split: sum.splits)

lemma deliver_keeps [simp]:
  "client (deliver bufs st) = client st"
  "device_id (deliver bufs st) = device_id st"
  "cameraStatusCallbacks (deliver bufs st) = cameraStatusCallbacks st"
  "local_mac (deliver bufs st) = local_mac st"
  "written (deliver bufs st) = written st"
  unfolding deliver_def
  by (induction bufs arbitrary: st; simp)+

lemma deliver_Nil [simp]: "deliver [] st = st"
  by (simp add: deliver_def)


lemma deliver_snoc: "deliver (xs @ [buf]) st = notification_handler buf (deliver xs st)"
  by (simp add: deliver_def)

lemma is_connected_deliver [simp]: "is_connected (deliver bufs st) = is_connected st"
  by (simp add: is_connected_def)

lemma handler_not_response:
  "\<not> is_response_buffer buf \<Longrightarrow>
   last_response_frame (notification_handler buf st) = last_response_frame st \<and>
   response_received (notification_handler buf st) = response_received st"
  by (auto simp: notification_handler_def is_response_buffer_def Let_def split: sum.splits)

lemma handler_response:
  "parse_dji_frame buf = Inr f \<Longrightarrow> f_frame_type f = 1 \<Longrightarrow>
   last_response_frame (notification_handler buf st) = Some f \<and>
   response_received (notification_handler buf st)"
  by (simp add: notification_handler_def)



lemma deliver_no_response:
  "\<forall>buf \<in> set bufs. \<not> is_response_buffer buf \<Longrightarrow>
   last_response_frame (deliver bufs st) = last_response_frame st \<and>
   response_received (deliver bufs st) = response_received st"
  unfolding deliver_def
  by (induction bufs arbitrary: st) (simp_all add: handler_not_response)


text \<open>What one \<^verbatim>\<open>send_dji_command\<close> does on a connected link with a well-formed command.\<close>

lemma send_dji_command_not_connected:
  "\<not> is_connected st \<Longrightarrow>
   send_dji_command cmd_set cmd_id payload w r env st = (Inl NotConnected, st)"
  by (simp add: send_dji_command_def)

lemma send_dji_command_written:
  assumes "is_connected st"
    and "build_dji_frame cmd_set cmd_id payload r 1 = Inr frame"
  shows "written (snd (send_dji_command cmd_set cmd_id payload w r env st)) = written st @ [frame]"
    and "client (snd (send_dji_command cmd_set cmd_id payload w r env st)) = client st"
    and "cameraStatusCallbacks (snd (send_dji_command cmd_set cmd_id payload w r env st)) =
         cameraStatusCallbacks st"
    and "device_id (snd (send_dji_command cmd_set cmd_id payload w r env st)) = device_id st"
    and "\<exists>resp. fst (send_dji_command cmd_set cmd_id payload w r env st) = Inr resp"
  using assms by (simp_all add: send_dji_command_def Let_def)

lemma send_dji_command_timeout:
  assumes conn: "is_connected st"
    and bld: "build_dji_frame cmd_set cmd_id payload False 1 = Inr frame"
    and quiet: "\<forall>buf \<in> set (during_write env @ during_wait env). \<not> is_response_buffer buf"
  shows "fst (send_dji_command cmd_set cmd_id payload True False env st) = Inr None"
    and "last_response_frame (snd (send_dji_command cmd_set cmd_id payload True False env st)) = None"
    and "\<not> response_received (snd (send_dji_command cmd_set cmd_id payload True False env st))"
proof -
  let ?s1 = "st\<lparr>last_response_frame := None, written := written st @ [frame]\<rparr>"
  let ?s2 = "deliver (during_write env) ?s1"
  let ?s3 = "deliver (during_wait env) (?s2\<lparr>response_received := False\<rparr>)"
  have w: "\<forall>buf \<in> set (during_write env). \<not> is_response_buffer buf"
    and v: "\<forall>buf \<in> set (during_wait env). \<not> is_response_buffer buf"
    using quiet by simp_all
  have 2: "last_response_frame ?s2 = None"
    using deliver_no_response [OF w, of ?s1] by simp
  have 3: "last_response_frame ?s3 = None" "\<not> response_received ?s3"
    using deliver_no_response [OF v, of "?s2\<lparr>response_received := False\<rparr>"] 2 by simp_all
  have r: "send_dji_command cmd_set cmd_id payload True False env st = (Inr None, ?s3)"
    using conn bld 2 3 by (simp add: send_dji_command_def Let_def)
  show "fst (send_dji_command cmd_set cmd_id payload True False env st) = Inr None"
    and "last_response_frame (snd (send_dji_command cmd_set cmd_id payload True False env st)) = None"
    and "\<not> response_received (snd (send_dji_command cmd_set cmd_id payload True False env st))"
    unfolding r using 3 by simp_all
qed

lemma send_dji_command_response_in_wait:
  assumes conn: "is_connected st"
    and bld: "build_dji_frame cmd_set cmd_id payload False 1 = Inr frame"
    and quiet: "\<forall>buf \<in> set (during_write env). \<not> is_response_buffer buf"
    and wait: "during_wait env = pre @ [buf]"
    and buf: "parse_dji_frame buf = Inr f" "f_frame_type f = 1"
  shows "fst (send_dji_command cmd_set cmd_id payload True False env st) = Inr (Some f)"
proof -
  let ?s1 = "st\<lparr>last_response_frame := None, written := written st @ [frame]\<rparr>"
  let ?s2 = "deliver (during_write env) ?s1"
  let ?s3 = "deliver (during_wait env) (?s2\<lparr>response_received := False\<rparr>)"
  have 2: "last_response_frame ?s2 = None"
    using deliver_no_response [OF quiet, of ?s1] by simp
  have 3: "last_response_frame ?s3 = Some f" "response_received ?s3"
    unfolding wait deliver_snoc using handler_response [OF buf] by simp_all
  show ?thesis
    using conn bld 2 3 by (simp add: send_dji_command_def Let_def)
qed

lemma start_broadcast_frame_built:
  "build_dji_frame 0x1D 0x05 [0x02, 0x14, 0x00, 0x00, 0x00, 0x00] False 1 = Inr start_broadcast_frame"
  unfolding start_broadcast_frame_def by code_simp

lemma stop_broadcast_frame_built:
  "build_dji_frame 0x1D 0x05 [0x00, 0x14, 0x00, 0x00, 0x00, 0x00] False 1 = Inr stop_broadcast_frame"
  unfolding stop_broadcast_frame_def by code_simp


lemma response_1D_03_zero_built:
  "build_dji_frame 0x1D 0x03 [0x00] True 1 = Inr response_1D_03_zero"
  unfolding response_1D_03_zero_def by code_simp

lemma response_accept_built:
  "build_dji_frame 0x00 0x19 [0, 0, 0, 0, 0] True 1 = Inr response_accept"
  unfolding response_accept_def by code_simp

lemma pack_BB4s_start: "pack_BB4s 0x02 0x14 [0x00, 0x00, 0x00, 0x00] = Inr [0x02, 0x14, 0x00, 0x00, 0x00, 0x00]"
  by (simp add: pack_BB4s_def pack_uint_def pack_s_def)

lemma pack_BB4s_stop: "pack_BB4s 0x00 0x14 [0x00, 0x00, 0x00, 0x00] = Inr [0x00, 0x14, 0x00, 0x00, 0x00, 0x00]"
  by (simp add: pack_BB4s_def pack_uint_def pack_s_def)

lemma pack_IB4s_ok:
  "0 \<le> a \<Longrightarrow> a < 2 ^ 32 \<Longrightarrow> 0 \<le> b \<Longrightarrow> b < 256 \<Longrightarrow>
   pack_IB4s a b [0x00, 0x00, 0x00, 0x00] = Inr (le_bytes 4 a @ [word_of_int b, 0x00, 0x00, 0x00, 0x00])"
  by (simp add: pack_IB4s_def pack_uint_def pack_s_def)

lemma subscribe_effect:
  assumes "is_connected st"
  shows "written (snd (subscribeCameraStatus cb env st)) = written st @ [start_broadcast_frame]"
    and "cameraStatusCallbacks (snd (subscribeCameraStatus cb env st)) =
         cameraStatusCallbacks st @ [cb]"
    and "client (snd (subscribeCameraStatus cb env st)) = client st"
proof -
  note s = send_dji_command_written [OF assms start_broadcast_frame_built, of True env]
  obtain r st' where r: "send_dji_command 0x1D 0x05 [0x02, 0x14, 0x00, 0x00, 0x00, 0x00] True False env st = (Inr r, st')"
    using s(5) by (metis prod.collapse)
  show "written (snd (subscribeCameraStatus cb env st)) = written st @ [start_broadcast_frame]"
    and "cameraStatusCallbacks (snd (subscribeCameraStatus cb env st)) =
         cameraStatusCallbacks st @ [cb]"
    and "client (snd (subscribeCameraStatus cb env st)) = client st"
    using s(1-4) by (simp_all add: subscribeCameraStatus_def pack_BB4s_start r)
qed

lemma snd_case_send:
  "snd (case p of (Inl e, st') \<Rightarrow> (Inl e, st') | (Inr resp, st') \<Rightarrow> (Inr (g resp), st')) = snd p"
  by (simp split: prod.splits sum.splits)

lemma unsubscribe_effect:
  assumes "is_connected st" and "cb \<in> set (cameraStatusCallbacks st)"
  shows "written (snd (unSubscribeCameraStatus cb env st)) =
           (if remove1 cb (cameraStatusCallbacks st) = [] then written st @ [stop_broadcast_frame]
            else written st)"
    and "cameraStatusCallbacks (snd (unSubscribeCameraStatus cb env st)) =
         remove1 cb (cameraStatusCallbacks st)"
    and "client (snd (unSubscribeCameraStatus cb env st)) = client st"
proof -
  let ?st = "st\<lparr>cameraStatusCallbacks := remove1 cb (cameraStatusCallbacks st)\<rparr>"
  let ?send = "send_dji_command 0x1D 0x05 [0x00, 0x14, 0x00, 0x00, 0x00, 0x00] True False env ?st"
  have c: "is_connected ?st" using assms(1) by (simp add: is_connected_def)
  note s = send_dji_command_written [OF c stop_broadcast_frame_built, of True env]
  have u: "unSubscribeCameraStatus cb env st =
           (if remove1 cb (cameraStatusCallbacks st) = [] then
              (case ?send of (Inl e, st') \<Rightarrow> (Inl e, st') | (Inr resp, st') \<Rightarrow> (Inr (), st'))
            else (Inr (), ?st))"
    using assms(2) by (simp add: unSubscribeCameraStatus_def pack_BB4s_stop Let_def)
  show "written (snd (unSubscribeCameraStatus cb env st)) =
           (if remove1 cb (cameraStatusCallbacks st) = [] then written st @ [stop_broadcast_frame]
            else written st)"
    and "cameraStatusCallbacks (snd (unSubscribeCameraStatus cb env st)) =
         remove1 cb (cameraStatusCallbacks st)"
    and "client (snd (unSubscribeCameraStatus cb env st)) = client st"
    unfolding u using s(1-3) by (auto simp: snd_case_send)
qed

lemma is_connected_osmo_ready [simp]: "is_connected osmo_ready"
  by (simp add: is_connected_def osmo_ready_def)

lemma is_connected_osmo_one_subscriber [simp]: "is_connected osmo_one_subscriber"
  by (simp add: is_connected_def osmo_one_subscriber_def osmo_ready_def)

lemma is_connected_snd_subscribe:
  "is_connected st \<Longrightarrow> is_connected (snd (subscribeCameraStatus cb env st))"
  using subscribe_effect(3) [of st cb env] by (simp add: is_connected_def)

lemma is_connected_snd_unsubscribe:
  "is_connected st \<Longrightarrow> cb \<in> set (cameraStatusCallbacks st) \<Longrightarrow>
   is_connected (snd (unSubscribeCameraStatus cb env st))"
  using unsubscribe_effect(3) [of st cb env] by (simp add: is_connected_def)

lemma is_response_buffer_status_broadcast_empty:
  "\<not> is_response_buffer status_broadcast_empty"
  unfolding status_broadcast_empty_def by code_simp

lemma build_dji_frame_ok:
  "0 \<le> cmd_set \<Longrightarrow> cmd_set < 256 \<Longrightarrow> 0 \<le> cmd_id \<Longrightarrow> cmd_id < 256 \<Longrightarrow>
   \<exists>frame. build_dji_frame cmd_set cmd_id payload r ack = Inr frame"
  using build_dji_frame_layout by blast

lemma command_ok_False: "\<not> command_ok resp"
  by (cases resp) (simp_all add: command_ok_def)

lemma send_command_result_False:
  "fst (case send_dji_command cmd_set cmd_id payload w r env st of
          (Inl e, st') \<Rightarrow> (Inl e, st')
        | (Inr resp, st') \<Rightarrow> (Inr (command_ok resp), st')) \<noteq> Inr True"
  by (simp add: command_ok_False split: prod.splits sum.splits)

lemma send_command_result_connected:
  assumes "is_connected st" and "build_dji_frame cmd_set cmd_id payload r 1 = Inr frame"
  shows "fst (case send_dji_command cmd_set cmd_id payload w r env st of
          (Inl e, st') \<Rightarrow> (Inl e, st')
        | (Inr resp, st') \<Rightarrow> (Inr (command_ok resp), st')) = Inr False"
  using send_dji_command_written(5) [OF assms, of w env]
  by (auto simp: command_ok_False split: prod.splits sum.splits)

lemma CameraMode_value_range:
  "mode \<noteq> CameraMode_UNKNOWN \<Longrightarrow> 0 \<le> CameraMode_value mode \<and> CameraMode_value mode < 256"
  by (cases mode) simp_all

lemma response_1D_03_zero_parsed:
  "\<exists>f. parse_dji_frame response_1D_03_zero = Inr f \<and> f_frame_type f = 1 \<and>
       f_cmd_set f = 0x1D \<and> f_cmd_id f = 0x03 \<and> f_data f = [0x00]"
  using build_parse_round_trip [OF _ _ _ _ _ response_1D_03_zero_built] by auto

lemma send_zero_reply:
  "\<exists>f. fst (send_dji_command 0x1D 0x03 (le_bytes 4 0x11223344 @ [0x00, 0x00, 0x00, 0x00, 0x00])
              True False zero_reply osmo_ready) = Inr (Some f) \<and> f_data f = [0x00]"
proof -
  obtain f where f: "parse_dji_frame response_1D_03_zero = Inr f" "f_frame_type f = 1"
    "f_data f = [0x00]"
    using response_1D_03_zero_parsed by blast
  have "\<exists>frame. build_dji_frame 0x1D 0x03
      (le_bytes 4 0x11223344 @ [0x00, 0x00, 0x00, 0x00, 0x00]) False 1 = Inr frame"
    by (rule build_dji_frame_ok) simp_all
  then obtain frame where b: "build_dji_frame 0x1D 0x03
      (le_bytes 4 0x11223344 @ [0x00, 0x00, 0x00, 0x00, 0x00]) False 1 = Inr frame"
    by blast
  have "fst (send_dji_command 0x1D 0x03 (le_bytes 4 0x11223344 @ [0x00, 0x00, 0x00, 0x00, 0x00])
              True False zero_reply osmo_ready) = Inr (Some f)"
    by (rule send_dji_command_response_in_wait [OF is_connected_osmo_ready b _ _ f(1,2), of _ "[]"])
       (simp_all add: zero_reply_def)
  then show ?thesis using f(3) by blast
qed

lemma startRecording_unfolded:
  assumes "device_id st = Some dev" "0 \<le> dev" "dev < 2 ^ 32"
  shows "startRecording env st =
         (case send_dji_command 0x1D 0x03 (le_bytes 4 dev @ [0x00, 0x00, 0x00, 0x00, 0x00])
                 True False env st of
            (Inl e, st') \<Rightarrow> (Inl e, st')
          | (Inr resp, st') \<Rightarrow> (Inr (command_ok resp), st'))"
  using assms by (simp add: startRecording_def pack_IB4s_ok)












lemma approval_allow_built:
  "build_dji_frame 0x00 0x19 (replicate 26 0x00 @ [0x02, 0x00, 0x00]) False 1 = Inr approval_allow"
  unfolding approval_allow_def by code_simp


lemma connect_await_approval_latest_decides:
  "fst (connect_await_approval [approval_short, approval_allow] silence osmo_ready) =
     Paired 0x11223344 \<and>
   fst (connect_await_approval [approval_allow, approval_short] silence osmo_ready) = NoOutcome"
  unfolding approval_short_def approval_allow_def silence_def osmo_ready_def
  by code_simp

section \<open>Claims about the command channel\<close>

text \<open>
  Claim C7. When a well-formed command is sent on a connected link with a response
  expected and no buffer that decodes to a Response frame arrives while the write is
  awaited or within the timeout of the wait, \<^verbatim>\<open>send_dji_command\<close> returns \<^verbatim>\<open>None\<close>, not
  an exception, and leaves no pending state: the response slot is empty, the
  "response received" flag is clear and the link is still connected. The channel is
  usable at once: the next command, sent from that state, returns the response frame
  that arrives during its wait.
\<close>

theorem C7_timeout_returns_none_and_channel_stays_usable:
  assumes "is_connected st"
    and "build_dji_frame cmd_set cmd_id payload False 1 = Inr frame"
    and "\<forall>buf \<in> set (during_write env @ during_wait env). \<not> is_response_buffer buf"
    and "build_dji_frame cmd_set' cmd_id' payload' False 1 = Inr frame'"
    and "\<forall>buf \<in> set (during_write env'). \<not> is_response_buffer buf"
    and "during_wait env' = pre @ [buf]"
    and "parse_dji_frame buf = Inr f" and "f_frame_type f = 1"
  shows "\<exists>st'. send_dji_command cmd_set cmd_id payload True False env st = (Inr None, st') \<and>
           last_response_frame st' = None \<and> \<not> response_received st' \<and>
           is_connected st' \<and> written st' = written st @ [frame] \<and>
           fst (send_dji_command cmd_set' cmd_id' payload' True False env' st') = Inr (Some f)"
proof -
  let ?r = "send_dji_command cmd_set cmd_id payload True False env st"
  have c: "is_connected (snd ?r)"
    using send_dji_command_written(2) [OF assms(1,2), of True env] assms(1)
    by (simp add: is_connected_def)
  have "?r = (Inr None, snd ?r)"
    using send_dji_command_timeout(1) [OF assms(1-3)] by (simp add: prod_eq_iff)
  moreover have "fst (send_dji_command cmd_set' cmd_id' payload' True False env' (snd ?r)) =
                 Inr (Some f)"
    by (rule send_dji_command_response_in_wait [OF c assms(4-8)])
  ultimately show ?thesis
    using send_dji_command_timeout(2,3) [OF assms(1-3)] c
      send_dji_command_written(1) [OF assms(1,2), of True env]
    by blast
qed

theorem C7_timeout_witness:
  "\<exists>st' f. send_dji_command 0x1D 0x03 [0x44, 0x33, 0x22, 0x11, 0x00, 0x00, 0x00, 0x00, 0x00]
               True False \<lparr>during_write = [], during_wait = [status_broadcast_empty]\<rparr>
               osmo_ready = (Inr None, st') \<and>
           last_response_frame st' = None \<and> \<not> response_received st' \<and> is_connected st' \<and>
           fst (send_dji_command 0x1D 0x03 [0x44, 0x33, 0x22, 0x11, 0x00, 0x00, 0x00, 0x00, 0x00]
                  True False zero_reply st') = Inr (Some f) \<and>
           f_data f = [0x00]"
proof -
  obtain f where f: "parse_dji_frame response_1D_03_zero = Inr f" "f_frame_type f = 1"
    "f_data f = [0x00]"
    using response_1D_03_zero_parsed by blast
  have "\<exists>frame. build_dji_frame 0x1D 0x03
      [0x44, 0x33, 0x22, 0x11, 0x00, 0x00, 0x00, 0x00, 0x00] False 1 = Inr frame"
    by (rule build_dji_frame_ok) simp_all
  then obtain frame where b: "build_dji_frame 0x1D 0x03
      [0x44, 0x33, 0x22, 0x11, 0x00, 0x00, 0x00, 0x00, 0x00] False 1 = Inr frame"
    by blast
  have q: "\<forall>buf \<in> set (during_write \<lparr>during_write = [], during_wait = [status_broadcast_empty]\<rparr> @
                         during_wait \<lparr>during_write = [], during_wait = [status_broadcast_empty]\<rparr>).
             \<not> is_response_buffer buf"
    by (simp add: is_response_buffer_status_broadcast_empty)
  have q': "\<forall>buf \<in> set (during_write zero_reply). \<not> is_response_buffer buf"
    and w': "during_wait zero_reply = [] @ [response_1D_03_zero]"
    by (simp_all add: zero_reply_def)
  show ?thesis
    using C7_timeout_returns_none_and_channel_stays_usable
      [OF is_connected_osmo_ready b q b q' w' f(1,2)] f(3)
    by blast
qed

section \<open>Claims about subscriptions\<close>

text \<open>
  Claim C3, as stated: \<^verbatim>\<open>subscribeCameraStatus\<close> issues the "start broadcast" command
  if and only if the registry was empty before the call. It fails on a registry that
  already holds a callback: the second subscriber's call writes the start command too.
\<close>

theorem C3_counterexample_second_subscribe:
  "cameraStatusCallbacks osmo_one_subscriber = [1] \<and>
   written osmo_one_subscriber = [] \<and>
   written (snd (subscribeCameraStatus 2 silence osmo_one_subscriber)) = [start_broadcast_frame]"
proof -
  have "written (snd (subscribeCameraStatus 2 silence osmo_one_subscriber)) =
        written osmo_one_subscriber @ [start_broadcast_frame]"
    by (rule subscribe_effect(1) [OF is_connected_osmo_one_subscriber])
  then show ?thesis
    by (simp add: osmo_one_subscriber_def osmo_ready_def)
qed

text \<open>
  Claim C3, amended. On a connected link \<^verbatim>\<open>subscribeCameraStatus\<close> issues the "start
  broadcast" command on every call, whatever the registry holds, and then registers the
  callback; \<^verbatim>\<open>unSubscribeCameraStatus\<close> of a registered callback issues the "stop
  broadcast" command if and only if the registry is empty after the removal. So
  subscribing two callbacks and then unsubscribing both writes two start commands (one
  per subscribe), nothing on the first unsubscribe and exactly one stop command on the
  last unsubscribe.
\<close>

theorem C3_subscribe_always_starts_unsubscribe_stops_when_empty:
  assumes "is_connected st"
  shows "build_dji_frame 0x1D 0x05 [0x02, 0x14, 0x00, 0x00, 0x00, 0x00] False 1 = Inr start_broadcast_frame \<and>
         build_dji_frame 0x1D 0x05 [0x00, 0x14, 0x00, 0x00, 0x00, 0x00] False 1 = Inr stop_broadcast_frame \<and>
         written (snd (subscribeCameraStatus cb env st)) = written st @ [start_broadcast_frame] \<and>
         cameraStatusCallbacks (snd (subscribeCameraStatus cb env st)) = cameraStatusCallbacks st @ [cb] \<and>
         (cb \<in> set (cameraStatusCallbacks st) \<longrightarrow>
            cameraStatusCallbacks (snd (unSubscribeCameraStatus cb env st)) =
              remove1 cb (cameraStatusCallbacks st) \<and>
            written (snd (unSubscribeCameraStatus cb env st)) =
              (if remove1 cb (cameraStatusCallbacks st) = []
               then written st @ [stop_broadcast_frame] else written st)) \<and>
         (cameraStatusCallbacks st = [] \<longrightarrow>
            written (snd (subscribeCameraStatus cb1 env1 st)) =
              written st @ [start_broadcast_frame] \<and>
            written (snd (subscribeCameraStatus cb2 env2
                      (snd (subscribeCameraStatus cb1 env1 st)))) =
              written st @ [start_broadcast_frame, start_broadcast_frame] \<and>
            written (snd (unSubscribeCameraStatus cb1 env3
                      (snd (subscribeCameraStatus cb2 env2
                        (snd (subscribeCameraStatus cb1 env1 st)))))) =
              written st @ [start_broadcast_frame, start_broadcast_frame] \<and>
            written (snd (unSubscribeCameraStatus cb2 env4
                      (snd (unSubscribeCameraStatus cb1 env3
                        (snd (subscribeCameraStatus cb2 env2
                          (snd (subscribeCameraStatus cb1 env1 st)))))))) =
              written st @ [start_broadcast_frame, start_broadcast_frame, stop_broadcast_frame])"
proof -
  let ?s1 = "snd (subscribeCameraStatus cb1 env1 st)"
  let ?s2 = "snd (subscribeCameraStatus cb2 env2 ?s1)"
  let ?s3 = "snd (unSubscribeCameraStatus cb1 env3 ?s2)"
  let ?s4 = "snd (unSubscribeCameraStatus cb2 env4 ?s3)"
  have c1: "is_connected ?s1" by (rule is_connected_snd_subscribe [OF assms])
  have c2: "is_connected ?s2" by (rule is_connected_snd_subscribe [OF c1])
  have w1: "written ?s1 = written st @ [start_broadcast_frame]"
    and r1: "cameraStatusCallbacks ?s1 = cameraStatusCallbacks st @ [cb1]"
    using subscribe_effect [OF assms] by simp_all
  have w2: "written ?s2 = written st @ [start_broadcast_frame, start_broadcast_frame]"
    and r2: "cameraStatusCallbacks ?s2 = cameraStatusCallbacks st @ [cb1, cb2]"
    using subscribe_effect [OF c1] w1 r1 by simp_all
  {
    assume e: "cameraStatusCallbacks st = []"
    have m3: "cb1 \<in> set (cameraStatusCallbacks ?s2)" using r2 by simp
    have c3: "is_connected ?s3" by (rule is_connected_snd_unsubscribe [OF c2 m3])
    have r3: "cameraStatusCallbacks ?s3 = [cb2]"
      using unsubscribe_effect(2) [OF c2 m3] r2 e by simp
    have w3: "written ?s3 = written st @ [start_broadcast_frame, start_broadcast_frame]"
      using unsubscribe_effect(1) [OF c2 m3] r2 e w2 by simp
    have m4: "cb2 \<in> set (cameraStatusCallbacks ?s3)" using r3 by simp
    have w4: "written ?s4 =
              written st @ [start_broadcast_frame, start_broadcast_frame, stop_broadcast_frame]"
      using unsubscribe_effect(1) [OF c3 m4] r3 w3 by simp
    note w3 w4
  }
  then show ?thesis
    using subscribe_effect(1,2) [OF assms, of cb env] unsubscribe_effect(1,2) [OF assms, of cb env]
      w1 w2 start_broadcast_frame_built stop_broadcast_frame_built
    by simp
qed

theorem C3_subscriber_lifecycle_witness:
  "written (snd (subscribeCameraStatus 1 silence osmo_ready)) = [start_broadcast_frame] \<and>
   written (snd (subscribeCameraStatus 2 silence (snd (subscribeCameraStatus 1 silence osmo_ready))))
     = [start_broadcast_frame, start_broadcast_frame] \<and>
   written (snd (unSubscribeCameraStatus 1 silence
             (snd (subscribeCameraStatus 2 silence
               (snd (subscribeCameraStatus 1 silence osmo_ready))))))
     = [start_broadcast_frame, start_broadcast_frame] \<and>
   written (snd (unSubscribeCameraStatus 2 silence
             (snd (unSubscribeCameraStatus 1 silence
               (snd (subscribeCameraStatus 2 silence
                 (snd (subscribeCameraStatus 1 silence osmo_ready))))))))
     = [start_broadcast_frame, start_broadcast_frame, stop_broadcast_frame]"
  using C3_subscribe_always_starts_unsubscribe_stops_when_empty
    [of osmo_ready 1 silence 1 silence 2 silence silence silence]
  by (simp add: osmo_ready_def is_connected_def)

section \<open>Claims about the camera commands\<close>

text \<open>
  Claim C8. \<^verbatim>\<open>setMode\<close>, \<^verbatim>\<open>startRecording\<close>, \<^verbatim>\<open>stopRecording\<close> and \<^verbatim>\<open>grabImage\<close> never
  return \<^verbatim>\<open>True\<close>: their success test compares the \<^verbatim>\<open>bytes\<close> payload of the response
  with the integer 0, which is false for every response frame and also when there is
  no response. On a connected link, with a stored device id that fits 32 bits (and, for
  \<^verbatim>\<open>setMode\<close>, a mode other than \<^verbatim>\<open>UNKNOWN\<close>, whose value \<open>-1\<close> cannot be packed), each of
  them returns \<^verbatim>\<open>False\<close> whatever the transport delivers.
\<close>

theorem C8_commands_never_return_true:
  "\<not> command_ok resp \<and>
   fst (setMode mode env st) \<noteq> Inr True \<and>
   fst (startRecording env st) \<noteq> Inr True \<and>
   fst (stopRecording env st) \<noteq> Inr True \<and>
   fst (grabImage env st) \<noteq> Inr True \<and>
   (is_connected st \<and> device_id st = Some dev \<and> 0 \<le> dev \<and> dev < 2 ^ 32 \<longrightarrow>
      (mode \<noteq> CameraMode_UNKNOWN \<longrightarrow> fst (setMode mode env st) = Inr False) \<and>
      fst (startRecording env st) = Inr False \<and>
      fst (stopRecording env st) = Inr False \<and>
      fst (grabImage env st) = Inr False)"
proof -
  have never: "fst (setMode mode env st) \<noteq> Inr True" "fst (startRecording env st) \<noteq> Inr True"
    "fst (stopRecording env st) \<noteq> Inr True" "fst (grabImage env st) \<noteq> Inr True"
    unfolding setMode_def startRecording_def stopRecording_def grabImage_def
    using send_command_result_False
    by (simp_all split: option.splits sum.splits)
  have "(mode \<noteq> CameraMode_UNKNOWN \<longrightarrow> fst (setMode mode env st) = Inr False) \<and>
      fst (startRecording env st) = Inr False \<and>
      fst (stopRecording env st) = Inr False \<and>
      fst (grabImage env st) = Inr False"
    if c: "is_connected st" and d: "device_id st = Some dev" "0 \<le> dev" "dev < 2 ^ 32"
  proof -
    have b: "\<exists>frame. build_dji_frame 0x1D i p False 1 = Inr frame"
      if "i = 3 \<or> i = 4" for i p
      using that build_dji_frame_ok [of "0x1D" i p False 1] by auto
    have r: "fst (case send_dji_command 0x1D i p True False env st of
          (Inl e, st') \<Rightarrow> (Inl e, st')
        | (Inr resp, st') \<Rightarrow> (Inr (command_ok resp), st')) = Inr False"
      if "i = 3 \<or> i = 4" for i p
      using b [OF that, of p] send_command_result_connected [OF c] by blast
    show ?thesis
      unfolding setMode_def startRecording_def stopRecording_def grabImage_def
      using d CameraMode_value_range [of mode] r
      by (simp add: pack_IB4s_ok)
  qed
  then show ?thesis
    using never command_ok_False by blast
qed

theorem C8_commands_witness:
  "(\<exists>f. fst (send_dji_command 0x1D 0x03 (le_bytes 4 0x11223344 @ [0x00, 0x00, 0x00, 0x00, 0x00])
              True False zero_reply osmo_ready) = Inr (Some f) \<and> f_data f = [0x00]) \<and>
   fst (setMode CameraMode_PANO_PHOTO zero_reply osmo_ready) = Inr False \<and>
   fst (startRecording zero_reply osmo_ready) = Inr False \<and>
   fst (stopRecording zero_reply osmo_ready) = Inr False \<and>
   fst (grabImage zero_reply osmo_ready) = Inr False"
  using C8_commands_never_return_true [of None CameraMode_PANO_PHOTO zero_reply osmo_ready "0x11223344"]
    send_zero_reply
  by (simp add: osmo_ready_def is_connected_def)

text \<open>
  Claim C9. \<^verbatim>\<open>grabImage\<close> and \<^verbatim>\<open>startRecording\<close> are the same operation: for every
  object and every behaviour of the transport they return the same value and leave the
  same object. When the stored device id fits 32 bits both are the sending of command
  \<open>(0x1D, 0x03)\<close> with the payload "device id, action byte \<open>0x00\<close>, four zero bytes",
  response expected, not a response frame, followed by the same success test; on a
  connected link both write the same frame.
\<close>

theorem C9_grabImage_equals_startRecording:
  "grabImage env st = startRecording env st \<and>
   (device_id st = Some dev \<and> 0 \<le> dev \<and> dev < 2 ^ 32 \<longrightarrow>
      grabImage env st =
         (case send_dji_command 0x1D 0x03 (le_bytes 4 dev @ [0x00, 0x00, 0x00, 0x00, 0x00])
                 True False env st of
            (Inl e, st') \<Rightarrow> (Inl e, st')
          | (Inr resp, st') \<Rightarrow> (Inr (command_ok resp), st')) \<and>
      (is_connected st \<longrightarrow>
         (\<exists>frame. build_dji_frame 0x1D 0x03 (le_bytes 4 dev @ [0x00, 0x00, 0x00, 0x00, 0x00])
                     False 1 = Inr frame \<and>
                  written (snd (grabImage env st)) = written st @ [frame] \<and>
                  written (snd (startRecording env st)) = written st @ [frame])))"
proof -
  have eq: "grabImage env st = startRecording env st"
    by (simp add: grabImage_def startRecording_def)
  have "\<exists>frame. build_dji_frame 0x1D 0x03 (le_bytes 4 dev @ [0x00, 0x00, 0x00, 0x00, 0x00])
                     False 1 = Inr frame \<and>
                  written (snd (startRecording env st)) = written st @ [frame]"
    if d: "device_id st = Some dev" "0 \<le> dev" "dev < 2 ^ 32" and c: "is_connected st"
  proof -
    have "\<exists>frame. build_dji_frame 0x1D 0x03
        (le_bytes 4 dev @ [0x00, 0x00, 0x00, 0x00, 0x00]) False 1 = Inr frame"
      by (rule build_dji_frame_ok) simp_all
    then obtain frame where b: "build_dji_frame 0x1D 0x03
        (le_bytes 4 dev @ [0x00, 0x00, 0x00, 0x00, 0x00]) False 1 = Inr frame"
      by blast
    show ?thesis
      using send_dji_command_written(1) [OF c b, of True env] b
      unfolding startRecording_unfolded [OF d] by (auto simp: snd_case_send)
  qed
  then show ?thesis
    using eq startRecording_unfolded [of st dev env] by auto
qed

theorem C9_grabImage_witness:
  "grabImage silence osmo_ready = startRecording silence osmo_ready \<and>
   (\<exists>frame. build_dji_frame 0x1D 0x03 [0x44, 0x33, 0x22, 0x11, 0x00, 0x00, 0x00, 0x00, 0x00]
               False 1 = Inr frame \<and>
            written (snd (grabImage silence osmo_ready)) = [frame] \<and>
            written (snd (startRecording silence osmo_ready)) = [frame])"
proof -
  have d: "device_id osmo_ready = Some 0x11223344" and w: "written osmo_ready = []"
    by (simp_all add: osmo_ready_def)
  have l: "le_bytes 4 0x11223344 = [0x44, 0x33, 0x22, 0x11]"
    by code_simp
  show ?thesis
    using C9_grabImage_equals_startRecording [of silence osmo_ready "0x11223344"] d w l
    by auto
qed

section \<open>Claims about the pairing handshake\<close>




end
